theory Spec2Isabelle
  imports Main "HOL-Library.AList" "HOL-Library.Sublist"
begin

section \<open>The platform the builder runs on\<close>

text \<open>
  \<^verbatim>\<open>src/build.ts\<close> is one asynchronous function, \<^verbatim>\<open>build\<close>, that drives a file system, the
  process's working directory and a handful of collaborators (the installer, the framework's
  command line, the globbing layer). This section models what it calls: the POSIX flavour of
  Node's \<^verbatim>\<open>path\<close> module, the comparison of semantic versions, and JavaScript objects used as
  ordered dictionaries.
\<close>

subsection \<open>Paths\<close>

definition isAbsolute :: "string \<Rightarrow> bool" where
  "isAbsolute p = (case p of [] \<Rightarrow> False | c # _ \<Rightarrow> c = CHR ''/'')"

text \<open>\<^verbatim>\<open>String.prototype.split('/')\<close>: the empty string gives one empty segment.\<close>

fun split_slash :: "string \<Rightarrow> string list" where
  "split_slash [] = [[]]"
| "split_slash (c # cs) =
     (if c = CHR ''/'' then [] # split_slash cs
      else (case split_slash cs of [] \<Rightarrow> [[c]] | s # ss \<Rightarrow> (c # s) # ss))"

text \<open>\<^verbatim>\<open>Array.prototype.join('/')\<close>.\<close>

fun join_slash :: "string list \<Rightarrow> string" where
  "join_slash [] = []"
| "join_slash [s] = s"
| "join_slash (s # t # ss) = s @ CHR ''/'' # join_slash (t # ss)"

text \<open>
  One step of Node's \<^verbatim>\<open>normalizeString\<close>: empty segments and \<^verbatim>\<open>.\<close> are skipped, \<^verbatim>\<open>..\<close> removes
  the last kept segment unless there is none or it is itself \<^verbatim>\<open>..\<close>, in which case it is kept
  only when the path may climb above its root.
\<close>

definition normalize_step :: "bool \<Rightarrow> string list \<Rightarrow> string \<Rightarrow> string list" where
  "normalize_step allowAboveRoot res seg =
     (if seg = [] \<or> seg = ''.'' then res
      else if seg = ''..'' then
        (if res \<noteq> [] \<and> last res \<noteq> ''..'' then butlast res
         else if allowAboveRoot then res @ [''..''] else res)
      else res @ [seg])"

definition normalize_segments :: "bool \<Rightarrow> string list \<Rightarrow> string list" where
  "normalize_segments allowAboveRoot segs = foldl (normalize_step allowAboveRoot) [] segs"

definition normalizeString :: "string \<Rightarrow> bool \<Rightarrow> string" where
  "normalizeString p allowAboveRoot = join_slash (normalize_segments allowAboveRoot (split_slash p))"

definition path_normalize :: "string \<Rightarrow> string" where
  "path_normalize p =
     (if p = [] then ''.''
      else
        let absolute = isAbsolute p;
            trailingSeparator = (last p = CHR ''/'');
            q = normalizeString p (\<not> absolute)
        in if q = [] then (if absolute then ''/'' else if trailingSeparator then ''./'' else ''.'')
           else (if absolute then ''/'' else []) @ q @ (if trailingSeparator then ''/'' else []))"

definition path_join :: "string list \<Rightarrow> string" where
  "path_join args =
     (let given = filter (\<lambda>a. a \<noteq> []) args
      in if given = [] then ''.'' else path_normalize (join_slash given))"

text \<open>
  \<^verbatim>\<open>path.resolve\<close> reads its arguments from the right until one is absolute and falls back
  on the working directory, which is always absolute; the result has no trailing slash.
\<close>

fun resolve_from :: "string \<Rightarrow> string list \<Rightarrow> string" where
  "resolve_from base [] = base"
| "resolve_from base (a # as) =
     resolve_from (if a = [] then base else if isAbsolute a then a else base @ CHR ''/'' # a) as"

definition path_resolve :: "string \<Rightarrow> string list \<Rightarrow> string" where
  "path_resolve wd args = CHR ''/'' # normalizeString (resolve_from wd args) False"

text \<open>
  \<^verbatim>\<open>path.dirname\<close>: trailing slashes are ignored, and the result is the text before the last
  remaining slash. The scan of the source never looks at index 0, hence the split into the
  first character and the rest.
\<close>

definition path_dirname :: "string \<Rightarrow> string" where
  "path_dirname p =
     (case p of
        [] \<Rightarrow> ''.''
      | c # rest \<Rightarrow>
          let hasRoot = (c = CHR ''/'');
              r = dropWhile (\<lambda>x. x \<noteq> CHR ''/'') (dropWhile (\<lambda>x. x = CHR ''/'') (rev rest))
          in if r = [] then (if hasRoot then ''/'' else ''.'')
             else if hasRoot \<and> length r = 1 then ''//''
             else c # rev (tl r))"

text \<open>\<^verbatim>\<open>path.relative\<close>: both ends are resolved, their common directories dropped.\<close>

fun drop_common :: "string list \<Rightarrow> string list \<Rightarrow> string list \<times> string list" where
  "drop_common (a # as) (b # bs) = (if a = b then drop_common as bs else (a # as, b # bs))"
| "drop_common as bs = (as, bs)"

definition path_relative :: "string \<Rightarrow> string \<Rightarrow> string \<Rightarrow> string" where
  "path_relative wd from to =
     (let f = normalize_segments False (split_slash (path_resolve wd [from]));
          t = normalize_segments False (split_slash (path_resolve wd [to]))
      in case drop_common f t of (up, down) \<Rightarrow> join_slash (map (\<lambda>_. ''..'') up @ down))"

subsection \<open>Semantic versions\<close>

text \<open>
  The builder compares the framework's version with \<^verbatim>\<open>gte\<close> and \<^verbatim>\<open>gt\<close> of the \<^verbatim>\<open>semver\<close>
  package. A version is \<^verbatim>\<open>major.minor.patch\<close>, an optional \<^verbatim>\<open>-prerelease\<close> of dot-separated
  identifiers and an optional \<^verbatim>\<open>+build\<close> that plays no part in the order. A string that is
  not a version makes both functions throw.
\<close>

datatype pre_id = Numeric nat | Alphanumeric string

record semver =
  major :: nat
  minor :: nat
  patch :: nat
  prerelease :: "pre_id list"

definition is_digit :: "char \<Rightarrow> bool" where
  "is_digit c = (c \<in> set ''0123456789'')"

definition is_ident_char :: "char \<Rightarrow> bool" where
  "is_ident_char c =
     (c \<in> set ''0123456789abcdefghijklmnopqrstuvwxyzABCDEFGHIJKLMNOPQRSTUVWXYZ-'')"

definition digit_val :: "char \<Rightarrow> nat" where
  "digit_val c = of_char c - 48"

definition parse_nat :: "string \<Rightarrow> nat option" where
  "parse_nat s =
     (if s = [] \<or> \<not> list_all is_digit s \<or> (length s > 1 \<and> hd s = CHR ''0'') then None
      else Some (foldl (\<lambda>n c. 10 * n + digit_val c) 0 s))"

fun split_on :: "char \<Rightarrow> string \<Rightarrow> string list" where
  "split_on d [] = [[]]"
| "split_on d (c # cs) =
     (if c = d then [] # split_on d cs
      else (case split_on d cs of [] \<Rightarrow> [[c]] | s # ss \<Rightarrow> (c # s) # ss))"

definition parse_identifier :: "string \<Rightarrow> pre_id option" where
  "parse_identifier s =
     (if s = [] \<or> \<not> list_all is_ident_char s then None
      else if list_all is_digit s then map_option Numeric (parse_nat s)
      else Some (Alphanumeric s))"

fun sequence_option :: "'a option list \<Rightarrow> 'a list option" where
  "sequence_option [] = Some []"
| "sequence_option (None # _) = None"
| "sequence_option (Some x # xs) = map_option (\<lambda>ys. x # ys) (sequence_option xs)"

definition semver_parse :: "string \<Rightarrow> semver option" where
  "semver_parse v =
     (let core_pre = takeWhile (\<lambda>c. c \<noteq> CHR ''+'') v;
          core = takeWhile (\<lambda>c. c \<noteq> CHR ''-'') core_pre;
          pre = dropWhile (\<lambda>c. c \<noteq> CHR ''-'') core_pre
      in case map parse_nat (split_on CHR ''.'' core) of
           [Some a, Some b, Some c] \<Rightarrow>
             (if pre = [] then Some \<lparr>major = a, minor = b, patch = c, prerelease = []\<rparr>
              else map_option (\<lambda>ids. \<lparr>major = a, minor = b, patch = c, prerelease = ids\<rparr>)
                     (sequence_option (map parse_identifier (split_on CHR ''.'' (tl pre)))))
         | _ \<Rightarrow> None)"

text \<open>Three-way comparisons return \<open>-1\<close>, \<open>0\<close> or \<open>1\<close>, as \<^verbatim>\<open>SemVer.compare\<close> does.\<close>

definition compare_nat :: "nat \<Rightarrow> nat \<Rightarrow> int" where
  "compare_nat a b = (if a < b then - 1 else if a = b then 0 else 1)"

fun compare_string :: "string \<Rightarrow> string \<Rightarrow> int" where
  "compare_string [] [] = 0"
| "compare_string [] (_ # _) = - 1"
| "compare_string (_ # _) [] = 1"
| "compare_string (a # as) (b # bs) =
     (if (of_char a :: nat) < of_char b then - 1
      else if (of_char b :: nat) < of_char a then 1
      else compare_string as bs)"

fun compare_identifier :: "pre_id \<Rightarrow> pre_id \<Rightarrow> int" where
  "compare_identifier (Numeric a) (Numeric b) = compare_nat a b"
| "compare_identifier (Numeric _) (Alphanumeric _) = - 1"
| "compare_identifier (Alphanumeric _) (Numeric _) = 1"
| "compare_identifier (Alphanumeric a) (Alphanumeric b) = compare_string a b"

fun compare_identifiers :: "pre_id list \<Rightarrow> pre_id list \<Rightarrow> int" where
  "compare_identifiers [] [] = 0"
| "compare_identifiers [] (_ # _) = - 1"
| "compare_identifiers (_ # _) [] = 1"
| "compare_identifiers (a # as) (b # bs) =
     (if compare_identifier a b = 0 then compare_identifiers as bs else compare_identifier a b)"

definition comparePre :: "semver \<Rightarrow> semver \<Rightarrow> int" where
  "comparePre a b =
     (if prerelease a \<noteq> [] \<and> prerelease b = [] then - 1
      else if prerelease a = [] \<and> prerelease b \<noteq> [] then 1
      else if prerelease a = [] \<and> prerelease b = [] then 0
      else compare_identifiers (prerelease a) (prerelease b))"

definition compareMain :: "semver \<Rightarrow> semver \<Rightarrow> int" where
  "compareMain a b =
     (if compare_nat (major a) (major b) \<noteq> 0 then compare_nat (major a) (major b)
      else if compare_nat (minor a) (minor b) \<noteq> 0 then compare_nat (minor a) (minor b)
      else compare_nat (patch a) (patch b))"

definition semver_compare :: "semver \<Rightarrow> semver \<Rightarrow> int" where
  "semver_compare a b = (if compareMain a b \<noteq> 0 then compareMain a b else comparePre a b)"

text \<open>\<^verbatim>\<open>gte(a, b)\<close> and \<^verbatim>\<open>gt(a, b)\<close>; \<open>None\<close> stands for the \<^verbatim>\<open>TypeError\<close> of an invalid version.\<close>

definition gte :: "string \<Rightarrow> string \<Rightarrow> bool option" where
  "gte a b =
     (case (semver_parse a, semver_parse b) of
        (Some x, Some y) \<Rightarrow> Some (0 \<le> semver_compare x y)
      | _ \<Rightarrow> None)"

definition gt :: "string \<Rightarrow> string \<Rightarrow> bool option" where
  "gt a b =
     (case (semver_parse a, semver_parse b) of
        (Some x, Some y) \<Rightarrow> Some (0 < semver_compare x y)
      | _ \<Rightarrow> None)"

subsection \<open>Objects as ordered dictionaries\<close>

text \<open>
  A JavaScript object keeps its keys in insertion order, and \<^verbatim>\<open>Object.assign\<close> and the spread
  \<^verbatim>\<open>{...a, ...b}\<close> overwrite a key that is already there and append one that is not. (Keys that
  look like array indices, which an engine lists first, are not told apart here.)
\<close>

definition object_assign :: "('k \<times> 'v) list \<Rightarrow> ('k \<times> 'v) list \<Rightarrow> ('k \<times> 'v) list" where
  "object_assign target source = foldl (\<lambda>acc kv. AList.update (fst kv) (snd kv) acc) target source"

definition object_keys :: "('k \<times> 'v) list \<Rightarrow> 'k list" where
  "object_keys obj = map fst obj"

text \<open>
  \<^verbatim>\<open>String.prototype.replace\<close> with a global pattern: \<open>matcher\<close> gives the length of the match
  that starts at the head of the text, if there is one. The counter skips the rest of a match
  that has been replaced. (The replacement texts of the builder hold no \<^verbatim>\<open>$\<close> pattern.)
\<close>

fun replace_global :: "(string \<Rightarrow> nat option) \<Rightarrow> string \<Rightarrow> nat \<Rightarrow> string \<Rightarrow> string" where
  "replace_global matcher rep skip [] = []"
| "replace_global matcher rep skip (c # cs) =
     (if 0 < skip then replace_global matcher rep (skip - 1) cs
      else (case matcher (c # cs) of
              None \<Rightarrow> c # replace_global matcher rep 0 cs
            | Some n \<Rightarrow>
                if n = 0 then rep @ c # replace_global matcher rep 0 cs
                else rep @ replace_global matcher rep (n - 1) cs))"

definition literal :: "string \<Rightarrow> string \<Rightarrow> nat option" where
  "literal pat s = (if pat \<noteq> [] \<and> prefix pat s then Some (length pat) else None)"

text \<open>The pattern \<^verbatim>\<open>/\/\* __ENABLE_INTERNAL_SERVER__ \*\/ *true/\<close>.\<close>

definition internal_server_flag :: "string \<Rightarrow> nat option" where
  "internal_server_flag s =
     (let marker = ''/* __ENABLE_INTERNAL_SERVER__ */'';
          after = drop (length marker) s;
          spaces = takeWhile (\<lambda>c. c = CHR '' '') after
      in if prefix marker s \<and> prefix ''true'' (drop (length spaces) after)
         then Some (length marker + length spaces + 4) else None)"

definition string_of_bool :: "bool \<Rightarrow> string" where
  "string_of_bool b = (if b then ''true'' else ''false'')"

text \<open>The truth value JavaScript gives an optional string: absent and empty are both false.\<close>

definition truthy :: "string option \<Rightarrow> bool" where
  "truthy s = (case s of None \<Rightarrow> False | Some v \<Rightarrow> v \<noteq> [])"

section \<open>The data of a build\<close>

type_synonym fsmap = "(string \<times> string) list"

datatype fileRef = FileBlob string | FileFsRef string

type_synonym fileset = "(string \<times> fileRef) list"

record package_json =
  scripts :: "(string \<times> string) list option"
  dependencies :: "(string \<times> string) list option"
  devDependencies :: "(string \<times> string) list option"

record nuxtConfig =
  dir_static :: "string option"
  build_publicPath :: "string option"
  buildDir :: "string option"
  srcDir :: "string option"
  lambdaName :: "string option"
  serverMiddleware :: bool

datatype patterns = Many "string list" | One string

record nuxtBuilderConfig =
  maxDuration :: "nat option"
  memory :: "nat option"
  tscOptions :: "string option"
  generateStaticRoutes :: "bool option"
  includeFiles :: "patterns option"
  serverFiles :: "string list option"
  internalServer :: "bool option"
  app :: "string option"
  buildFiles :: "string list option"

record buildOptions =
  files :: fileset
  entrypoint :: string
  workPath :: string
  config :: nuxtBuilderConfig

text \<open>
  What the process gives the builder besides its arguments: the registry token of the
  environment, the directory of the builder's own code (\<^verbatim>\<open>__dirname\<close>) and the resolved path
  of the bridge module (\<^verbatim>\<open>require('@vercel/node-bridge')\<close>).
\<close>

record process =
  NPM_AUTH_TOKEN :: "string option"
  dirname :: string
  nodeBridge :: string

record lambda =
  handler :: string
  runtime :: string
  zipBuffer :: "(string \<times> string) list"
  environment :: "(string \<times> string) list"
  lambda_maxDuration :: "nat option"
  lambda_memory :: "nat option"

datatype output_item = Function lambda | Asset fileRef

record route =
  src :: "string option"
  dest :: "string option"
  headers :: "(string \<times> string) list option"
  handle :: "string option"

record builderOutput =
  "output" :: "(string \<times> output_item) list"
  routes :: "route list"

text \<open>The calls that leave the process or the builder's own module, with their arguments.\<close>

datatype call =
    Download fileset string
  | CopyBuildFiles "string list" string string
  | GetNodeVersion string
  | PrepareTypescriptEnvironment string
  | PrepareNodeModules string string
  | RunNpmInstall string "string list" "(string \<times> string) list"
  | RunPackageJsonScript string string
  | CompileTypescriptBuildFiles string string string
  | GetNuxtConfig string string
  | PreparePkgForProd
  | Exec string "string list"

datatype error =
    InvalidEntrypoint
  | ManifestNotFound
  | StageFailure call
  | FrameworkNotResolvable
  | UnsupportedFrameworkVersion string
  | SystemError string

datatype event =
    StartStep string
  | EndStep
  | Begin call
  | End call
  | Chdir string
  | FsWriteFile string string
  | FsWriteJSON string package_json
  | FsCopyFile string string
  | FsMkdirp string
  | FsUnlink string
  | Warn string

text \<open>
  The state a run works on: the files on disk (absolute path to content; directories are not
  modelled, so no operation fails for want of one), the working directory of the process, and
  the record of what the builder has done so far.
\<close>

record world =
  fs :: fsmap
  cwd :: string
  events :: "event list"

text \<open>
  The code outside \<^verbatim>\<open>src/build.ts\<close>, as parameters of the model: the helpers of
  \<^verbatim>\<open>./utils\<close> and \<^verbatim>\<open>./typescript\<close>, the build utilities of the platform, and the JSON
  codec. \<open>effect\<close> gives what a call does to the disk, \<open>None\<close> when it throws.
\<close>

record externals =
  validateEntrypoint :: "string \<Rightarrow> bool"
  effect :: "call \<Rightarrow> fsmap \<Rightarrow> fsmap option"
  parseJSON :: "string \<Rightarrow> package_json option"
  stringifyJSON :: "package_json \<Rightarrow> string"
  getNodeVersion :: "string \<Rightarrow> fsmap \<Rightarrow> string option"
  getNuxtConfigName :: "string \<Rightarrow> fsmap \<Rightarrow> string"
  getNuxtConfig :: "string \<Rightarrow> string \<Rightarrow> fsmap \<Rightarrow> nuxtConfig option"
  prepareTypescriptEnvironment :: "package_json \<Rightarrow> package_json"
  compileTypescriptBuildFiles :: "string \<Rightarrow> string \<Rightarrow> fsmap \<Rightarrow> fileset"
  preparePkgForProd :: "package_json \<Rightarrow> (string \<times> package_json) option"
  resolvePackageVersion :: "string \<Rightarrow> string \<Rightarrow> fsmap \<Rightarrow> string option"
  minimatch :: "string \<Rightarrow> string \<Rightarrow> bool"

section \<open>Effects\<close>

type_synonym 'a io = "world \<Rightarrow> (error + 'a) \<times> world"

definition io_return :: "'a \<Rightarrow> 'a io" where
  "io_return x = (\<lambda>w. (Inr x, w))"

definition io_throw :: "error \<Rightarrow> 'a io" where
  "io_throw e = (\<lambda>w. (Inl e, w))"

definition io_bind :: "'a io \<Rightarrow> ('a \<Rightarrow> 'b io) \<Rightarrow> 'b io" where
  "io_bind m f = (\<lambda>w. case m w of (Inl e, w') \<Rightarrow> (Inl e, w') | (Inr x, w') \<Rightarrow> f x w')"

text \<open>\<^verbatim>\<open>try { ... } catch (e) { ... }\<close>.\<close>

definition io_catch :: "'a io \<Rightarrow> (error \<Rightarrow> 'a io) \<Rightarrow> 'a io" where
  "io_catch m h = (\<lambda>w. case m w of (Inl e, w') \<Rightarrow> h e w' | (Inr x, w') \<Rightarrow> (Inr x, w'))"

definition io_when :: "bool \<Rightarrow> unit io \<Rightarrow> unit io" where
  "io_when b m = (if b then m else io_return ())"

definition emit :: "event \<Rightarrow> unit io" where
  "emit ev = (\<lambda>w. (Inr (), w\<lparr>events := events w @ [ev]\<rparr>))"

definition reads :: "(world \<Rightarrow> 'a) \<Rightarrow> 'a io" where
  "reads f = (\<lambda>w. (Inr (f w), w))"

definition from_option :: "error \<Rightarrow> 'a option \<Rightarrow> 'a io" where
  "from_option e x = (case x of None \<Rightarrow> io_throw e | Some v \<Rightarrow> io_return v)"

text \<open>A call to a collaborator is recorded when it starts and when it returns.\<close>

definition external :: "externals \<Rightarrow> call \<Rightarrow> unit io" where
  "external ext c =
     io_bind (emit (Begin c)) (\<lambda>_.
     io_bind (reads (\<lambda>w. effect ext c (fs w))) (\<lambda>r.
       case r of
         None \<Rightarrow> io_throw (StageFailure c)
       | Some fs' \<Rightarrow> (\<lambda>w. (Inr (), w\<lparr>fs := fs', events := events w @ [End c]\<rparr>))))"

text \<open>A collaborator that only answers a question about the disk.\<close>

definition query :: "call \<Rightarrow> (fsmap \<Rightarrow> 'a option) \<Rightarrow> 'a io" where
  "query c f =
     io_bind (emit (Begin c)) (\<lambda>_.
     io_bind (reads (\<lambda>w. f (fs w))) (\<lambda>r.
       case r of
         None \<Rightarrow> io_throw (StageFailure c)
       | Some v \<Rightarrow> io_bind (emit (End c)) (\<lambda>_. io_return v)))"

definition startStep :: "string \<Rightarrow> unit io" where
  "startStep step = emit (StartStep step)"

definition endStep :: "unit io" where
  "endStep = emit EndStep"

subsection \<open>The process and the file system\<close>

definition chdir :: "string \<Rightarrow> unit io" where
  "chdir directory =
     (\<lambda>w. (Inr (), w\<lparr>cwd := path_resolve (cwd w) [directory],
                       events := events w @ [Chdir (path_resolve (cwd w) [directory])]\<rparr>))"

definition absolute :: "world \<Rightarrow> string \<Rightarrow> string" where
  "absolute w p = path_resolve (cwd w) [p]"

definition existsSync :: "string \<Rightarrow> bool io" where
  "existsSync p = reads (\<lambda>w. map_of (fs w) (absolute w p) \<noteq> None)"

definition readFile :: "string \<Rightarrow> string io" where
  "readFile p =
     io_bind (reads (\<lambda>w. map_of (fs w) (absolute w p))) (from_option (SystemError ''ENOENT''))"

definition writeFile :: "string \<Rightarrow> string \<Rightarrow> unit io" where
  "writeFile p content =
     (\<lambda>w. (Inr (), w\<lparr>fs := AList.update (absolute w p) content (fs w),
                       events := events w @ [FsWriteFile (absolute w p) content]\<rparr>))"

definition writeJSON :: "externals \<Rightarrow> string \<Rightarrow> package_json \<Rightarrow> unit io" where
  "writeJSON ext p obj =
     (\<lambda>w. (Inr (), w\<lparr>fs := AList.update (absolute w p) (stringifyJSON ext obj) (fs w),
                       events := events w @ [FsWriteJSON (absolute w p) obj]\<rparr>))"

definition copyFile :: "string \<Rightarrow> string \<Rightarrow> unit io" where
  "copyFile source target =
     io_bind (readFile source) (\<lambda>content w.
       (Inr (), w\<lparr>fs := AList.update (absolute w target) content (fs w),
                   events := events w @ [FsCopyFile (absolute w source) (absolute w target)]\<rparr>))"

definition mkdirp :: "string \<Rightarrow> unit io" where
  "mkdirp p = (\<lambda>w. (Inr (), w\<lparr>events := events w @ [FsMkdirp (absolute w p)]\<rparr>))"

definition unlink :: "string \<Rightarrow> unit io" where
  "unlink p =
     (\<lambda>w. if map_of (fs w) (absolute w p) = None then (Inl (SystemError ''ENOENT''), w)
           else (Inr (), w\<lparr>fs := AList.delete (absolute w p) (fs w),
                             events := events w @ [FsUnlink (absolute w p)]\<rparr>))"

text \<open>
  \<^verbatim>\<open>readJSON\<close> of \<^verbatim>\<open>./utils\<close>: the file read and parsed; it throws when the file is missing
  or is not JSON.
\<close>

definition readJSON :: "externals \<Rightarrow> string \<Rightarrow> package_json io" where
  "readJSON ext p =
     io_bind (readFile p) (\<lambda>content. from_option (SystemError ''JSON'') (parseJSON ext content))"

text \<open>
  \<^verbatim>\<open>glob(pattern, dir)\<close> of the build utilities: the files under \<open>dir\<close> whose path relative to
  it matches the pattern, each as a reference to the file on disk under that relative path.
  It refuses a directory that is not absolute.
\<close>

definition relative_to :: "string \<Rightarrow> string \<Rightarrow> string option" where
  "relative_to directory p =
     (let d = path_resolve ''/'' [directory];
          base = (if d = ''/'' then d else d @ ''/'')
      in if prefix base p \<and> p \<noteq> base then Some (drop (length base) p) else None)"

definition glob_files :: "externals \<Rightarrow> string \<Rightarrow> string \<Rightarrow> fsmap \<Rightarrow> fileset" where
  "glob_files ext pattern directory disk =
     concat (map (\<lambda>entry.
       case relative_to directory (fst entry) of
         None \<Rightarrow> []
       | Some rel \<Rightarrow> if minimatch ext pattern rel then [(rel, FileFsRef (fst entry))] else [])
       disk)"

definition glob :: "externals \<Rightarrow> string \<Rightarrow> string \<Rightarrow> fileset io" where
  "glob ext pattern directory =
     (if \<not> isAbsolute directory then io_throw (SystemError ''basePath/cwd must be an absolute path'')
      else reads (\<lambda>w. glob_files ext pattern directory (fs w)))"

text \<open>
  Modelled from the spec: \<^verbatim>\<open>globAndPrefix\<close> lives in \<^verbatim>\<open>./utils\<close>, which is not among the
  sources. It globs the source directory for the pattern and rewrites every matched logical
  path by prepending the destination prefix (here as a leading path component).
\<close>

definition globAndPrefix :: "externals \<Rightarrow> string \<Rightarrow> string \<Rightarrow> string \<Rightarrow> fileset io" where
  "globAndPrefix ext pattern directory pre =
     io_bind (glob ext pattern directory) (\<lambda>found.
     io_return (object_assign [] (map (\<lambda>kv. (path_join [pre, fst kv], snd kv)) found)))"

text \<open>
  \<^verbatim>\<open>createLambda\<close> zips the files it is given: the content of each is read when the package is
  made, and a reference to a file that is not on disk makes it throw.
\<close>

definition file_content :: "fsmap \<Rightarrow> fileRef \<Rightarrow> string option" where
  "file_content disk f = (case f of FileBlob d \<Rightarrow> Some d | FileFsRef p \<Rightarrow> map_of disk p)"

definition zip_files :: "fsmap \<Rightarrow> fileset \<Rightarrow> (string \<times> string) list option" where
  "zip_files disk fl =
     sequence_option (map (\<lambda>kv. map_option (Pair (fst kv)) (file_content disk (snd kv))) fl)"

definition createLambda ::
  "string \<Rightarrow> string \<Rightarrow> fileset \<Rightarrow> (string \<times> string) list \<Rightarrow> nat option \<Rightarrow> nat option \<Rightarrow> lambda io" where
  "createLambda h r fl env maxD mem =
     io_bind (reads (\<lambda>w. zip_files (fs w) fl)) (\<lambda>z.
       case z of
         None \<Rightarrow> io_throw (SystemError ''createLambda'')
       | Some entries \<Rightarrow>
           io_return \<lparr>handler = h, runtime = r, zipBuffer = entries, environment = env,
                      lambda_maxDuration = maxD, lambda_memory = mem\<rparr>)"

section \<open>The build\<close>

text \<open>
  \<^verbatim>\<open>build\<close> of \<^verbatim>\<open>src/build.ts\<close>, cut at the source's own section comments into the steps it
  announces with \<^verbatim>\<open>startStep\<close>. Calls to the logger are left out; every other statement of
  the source has its line here, in the source's order.
\<close>

subsection \<open>Prepare build\<close>

record build_paths =
  entrypointDir :: string
  entrypointPath :: string
  rootPath :: string
  modulesPath :: string

definition resolve_paths :: "string \<Rightarrow> string \<Rightarrow> build_paths" where
  "resolve_paths work entry =
     (let dir = path_dirname entry;
          full = path_join [work, dir]
      in \<lparr>entrypointDir = dir, entrypointPath = full, rootPath = work,
          modulesPath = path_join [full, ''node_modules'']\<rparr>)"

record prepared =
  paths :: build_paths
  pkg :: package_json
  nodeVersion :: string
  needsTypescriptBuild :: bool
  yarnCachePath :: string

definition has_key :: "string \<Rightarrow> (string \<times> 'v) list option \<Rightarrow> bool" where
  "has_key k obj = (case obj of None \<Rightarrow> False | Some kvs \<Rightarrow> k \<in> set (object_keys kvs))"

definition usesTypescript :: "package_json \<Rightarrow> bool" where
  "usesTypescript p =
     (has_key ''@nuxt/typescript-build'' (devDependencies p) \<or>
      has_key ''@nuxt/typescript'' (dependencies p))"

definition read_manifest :: "externals \<Rightarrow> package_json io" where
  "read_manifest ext = io_catch (readJSON ext ''package.json'') (\<lambda>e. io_throw ManifestNotFound)"

definition write_npmrc :: "process \<Rightarrow> unit io" where
  "write_npmrc env =
     (case NPM_AUTH_TOKEN env of
        None \<Rightarrow> io_return ()
      | Some token \<Rightarrow>
          io_when (token \<noteq> [])
            (writeFile ''.npmrc'' (''//registry.npmjs.org/:_authToken='' @ token)))"

text \<open>From the start of the run to the second \<^verbatim>\<open>process.chdir\<close>: the workspace is on disk.\<close>

definition enter_workspace :: "externals \<Rightarrow> buildOptions \<Rightarrow> build_paths io" where
  "enter_workspace ext opts =
     io_bind (startStep ''Prepare build'') (\<lambda>_.
     io_bind (if validateEntrypoint ext (entrypoint opts) then io_return ()
              else io_throw InvalidEntrypoint) (\<lambda>_.
     let ps = resolve_paths (workPath opts) (entrypoint opts) in
     io_bind (external ext (Download (files opts) (workPath opts))) (\<lambda>_.
     io_bind (chdir (rootPath ps)) (\<lambda>_.
     io_bind (case buildFiles (config opts) of
                None \<Rightarrow> io_return ()
              | Some bf \<Rightarrow> external ext (CopyBuildFiles bf (rootPath ps) (entrypointPath ps))) (\<lambda>_.
     io_bind (chdir (entrypointPath ps)) (\<lambda>_.
     io_return ps))))))"

text \<open>From the Node version to the cache directories, with the manifest that was read.\<close>

definition prepare_environment ::
  "externals \<Rightarrow> process \<Rightarrow> build_paths \<Rightarrow> package_json \<Rightarrow> prepared io" where
  "prepare_environment ext env ps pkg0 =
     io_bind (query (GetNodeVersion (entrypointPath ps)) (getNodeVersion ext (entrypointPath ps))) (\<lambda>node.
     io_bind (reads (\<lambda>w. getNuxtConfigName ext (entrypointPath ps) (fs w) = ''nuxt.config.ts'')) (\<lambda>needsTs.
     io_bind (if usesTypescript pkg0
              then io_bind (external ext (PrepareTypescriptEnvironment (entrypointPath ps))) (\<lambda>_.
                   io_return (prepareTypescriptEnvironment ext pkg0))
              else io_return pkg0) (\<lambda>pkg1.
     io_bind (write_npmrc env) (\<lambda>_.
     io_bind (existsSync ''../.yarnclean'') (\<lambda>found.
     io_bind (io_when (\<not> found)
                (copyFile (path_join [dirname env, ''../.yarnclean'']) ''.yarnclean'')) (\<lambda>_.
     io_bind (reads (\<lambda>w. path_resolve (cwd w) [entrypointPath ps, ''.vercel_cache''])) (\<lambda>cachePath.
     io_bind (mkdirp cachePath) (\<lambda>_.
     io_bind (mkdirp (path_join [cachePath, ''yarn''])) (\<lambda>_.
     io_return \<lparr>paths = ps, pkg = pkg1, nodeVersion = node, needsTypescriptBuild = needsTs,
                yarnCachePath = path_join [cachePath, ''yarn'']\<rparr>)))))))))"

definition prepare_build :: "externals \<Rightarrow> process \<Rightarrow> buildOptions \<Rightarrow> prepared io" where
  "prepare_build ext env opts =
     io_bind (enter_workspace ext opts) (\<lambda>ps.
     io_bind (read_manifest ext) (\<lambda>pkg0.
     prepare_environment ext env ps pkg0))"

subsection \<open>Install devDependencies\<close>

definition dev_install :: "prepared \<Rightarrow> call" where
  "dev_install p =
     RunNpmInstall (entrypointPath (paths p))
       [''--prefer-offline'', ''--frozen-lockfile'', ''--non-interactive'', ''--production=false'',
        ''--modules-folder='' @ modulesPath (paths p), ''--cache-folder='' @ yarnCachePath p]
       [(''NODE_ENV'', ''development'')]"

definition install_devDependencies :: "externals \<Rightarrow> prepared \<Rightarrow> unit io" where
  "install_devDependencies ext p =
     io_bind (startStep ''Install devDependencies'') (\<lambda>_.
     io_bind (external ext (PrepareNodeModules (entrypointPath (paths p)) ''node_modules_dev'')) (\<lambda>_.
     external ext (dev_install p)))"

subsection \<open>Pre build\<close>

definition pre_build :: "externals \<Rightarrow> prepared \<Rightarrow> unit io" where
  "pre_build ext p =
     io_when (has_key ''now-build'' (scripts (pkg p)))
       (io_bind (startStep ''Pre build'') (\<lambda>_.
        external ext (RunPackageJsonScript (entrypointPath (paths p)) ''now-build'')))"

subsection \<open>Nuxt build\<close>

record settings =
  compiledTypescriptFiles :: fileset
  nuxtConfigName :: string
  staticDir :: string
  publicPath :: string
  buildDir :: string
  srcDir :: string
  lambdaName :: string
  usesServerMiddleware :: bool

definition strip_leading_slash :: "string \<Rightarrow> string" where
  "strip_leading_slash s = (case s of [] \<Rightarrow> [] | c # cs \<Rightarrow> if c = CHR ''/'' then cs else c # cs)"

definition or_default :: "string option \<Rightarrow> string \<Rightarrow> string" where
  "or_default v d = (case v of None \<Rightarrow> d | Some x \<Rightarrow> if x = [] then d else x)"

definition relative_or_default :: "string \<Rightarrow> string \<Rightarrow> string option \<Rightarrow> string \<Rightarrow> string" where
  "relative_or_default wd base v d =
     (case v of None \<Rightarrow> d | Some x \<Rightarrow> if x = [] then d else path_relative wd base x)"

definition nuxt_build :: "externals \<Rightarrow> buildOptions \<Rightarrow> prepared \<Rightarrow> settings io" where
  "nuxt_build ext opts p =
     (let ps = paths p; name = ''nuxt.config.js'' in
      io_bind (startStep ''Nuxt build'') (\<lambda>_.
      io_bind (if needsTypescriptBuild p
               then io_bind (external ext (CompileTypescriptBuildFiles (rootPath ps)
                                            (entrypointPath ps) (entrypointDir ps))) (\<lambda>_.
                    reads (\<lambda>w. compileTypescriptBuildFiles ext (rootPath ps) (entrypointPath ps) (fs w)))
               else io_return []) (\<lambda>compiled.
      io_bind (query (GetNuxtConfig (entrypointPath ps) name)
                 (getNuxtConfig ext (entrypointPath ps) name)) (\<lambda>nuxtConfigFile.
      io_bind (reads cwd) (\<lambda>wd.
      io_bind (external ext (Exec ''nuxt''
                 [''build'', ''--standalone'', ''--no-lock'',
                  ''--config-file '' @ [CHR 0x22] @ name @ [CHR 0x22]])) (\<lambda>_.
      io_bind (io_when (generateStaticRoutes (config opts) = Some True)
                 (external ext (Exec ''nuxt''
                    [''generate'', ''--no-build'', ''--no-lock'',
                     ''--config-file '' @ [CHR 0x22] @ name @ [CHR 0x22]]))) (\<lambda>_.
      io_return
        \<lparr>compiledTypescriptFiles = compiled,
         nuxtConfigName = name,
         staticDir = or_default (dir_static nuxtConfigFile) ''static'',
         publicPath = strip_leading_slash (or_default (build_publicPath nuxtConfigFile) ''/_nuxt/''),
         buildDir = relative_or_default wd (entrypointPath ps) (nuxtConfig.buildDir nuxtConfigFile) ''.nuxt'',
         srcDir = relative_or_default wd (entrypointPath ps) (nuxtConfig.srcDir nuxtConfigFile) ''.'',
         lambdaName = or_default (nuxtConfig.lambdaName nuxtConfigFile) ''index'',
         usesServerMiddleware =
           (case internalServer (config opts) of
              Some b \<Rightarrow> b
            | None \<Rightarrow> serverMiddleware nuxtConfigFile)\<rparr>)))))))"

subsection \<open>Install dependencies\<close>

definition prod_install :: "prepared \<Rightarrow> call" where
  "prod_install p =
     RunNpmInstall (entrypointPath (paths p))
       [''--prefer-offline'', ''--pure-lockfile'', ''--non-interactive'', ''--production=true'',
        ''--modules-folder='' @ modulesPath (paths p), ''--cache-folder='' @ yarnCachePath p]
       [(''NPM_ONLY_PRODUCTION'', ''true'')]"

text \<open>
  The version check: the manifest of the installed core package is resolved from the entry
  path, and its version compared with the floor and the ceiling.
\<close>

definition validate_nuxt_version :: "externals \<Rightarrow> string \<Rightarrow> string \<Rightarrow> unit io" where
  "validate_nuxt_version ext entry sfx =
     io_bind (reads (\<lambda>w. resolvePackageVersion ext entry (''@nuxt/core'' @ sfx @ ''/package.json'') (fs w))) (\<lambda>found.
     io_bind (from_option FrameworkNotResolvable found) (\<lambda>version.
     io_bind (from_option (SystemError ''Invalid Version'') (gte version ''2.4.0'')) (\<lambda>supported.
     io_bind (io_when (\<not> supported) (io_throw (UnsupportedFrameworkVersion version))) (\<lambda>_.
     io_bind (from_option (SystemError ''Invalid Version'') (gt version ''3.0.0'')) (\<lambda>untested.
     io_when untested (emit (Warn ''WARNING: nuxt >= 3.0.0 is not tested against this builder!'')))))))"

definition cleanup_npmrc :: "process \<Rightarrow> unit io" where
  "cleanup_npmrc env = io_when (truthy (NPM_AUTH_TOKEN env)) (unlink ''.npmrc'')"

definition install_dependencies :: "externals \<Rightarrow> process \<Rightarrow> prepared \<Rightarrow> string io" where
  "install_dependencies ext env p =
     io_bind (startStep ''Install dependencies'') (\<lambda>_.
     io_bind (external ext (PrepareNodeModules (entrypointPath (paths p)) ''node_modules_prod'')) (\<lambda>_.
     io_bind (from_option (StageFailure PreparePkgForProd) (preparePkgForProd ext (pkg p))) (\<lambda>nuxtDep.
     io_bind (writeJSON ext ''package.json'' (snd nuxtDep)) (\<lambda>_.
     io_bind (external ext (prod_install p)) (\<lambda>_.
     io_bind (validate_nuxt_version ext (entrypointPath (paths p)) (fst nuxtDep)) (\<lambda>_.
     io_bind (cleanup_npmrc env) (\<lambda>_.
     io_return (fst nuxtDep))))))))"

subsection \<open>Collect artifacts\<close>

definition launcher_source :: "string \<Rightarrow> string \<Rightarrow> bool \<Rightarrow> string \<Rightarrow> string" where
  "launcher_source sfx name internal template =
     replace_global internal_server_flag (string_of_bool internal) 0
       (replace_global (literal ''__NUXT_CONFIG__'') (''./'' @ name) 0
         (replace_global (literal ''__NUXT_SUFFIX__'') sfx 0 template))"

definition extra_patterns :: "nuxtBuilderConfig \<Rightarrow> string list" where
  "extra_patterns c =
     (case includeFiles c of
        Some (Many ps) \<Rightarrow> ps
      | Some (One s) \<Rightarrow> (if s \<noteq> [] then [s] else [])
      | None \<Rightarrow> [])
     @ (case serverFiles c of Some ps \<Rightarrow> ps | None \<Rightarrow> [])
     @ [''package.json'']"

text \<open>The loop over the extra patterns: each is globbed on its own and assigned into the set.\<close>

fun merge_patterns :: "externals \<Rightarrow> string \<Rightarrow> string list \<Rightarrow> fileset \<Rightarrow> fileset io" where
  "merge_patterns ext entry [] launcherFiles = io_return launcherFiles"
| "merge_patterns ext entry (pattern # rest) launcherFiles =
     io_bind (glob ext pattern entry) (\<lambda>found.
     merge_patterns ext entry rest (object_assign launcherFiles found))"

definition cache_rule :: "string \<Rightarrow> route" where
  "cache_rule pattern =
     \<lparr>src = Some pattern, dest = None,
      headers = Some [(''Cache-Control'', ''max-age=31557600'')], handle = None\<rparr>"

definition filesystem_rule :: route where
  "filesystem_rule = \<lparr>src = None, dest = None, headers = None, handle = Some ''filesystem''\<rparr>"

definition catch_all_rule :: route where
  "catch_all_rule = \<lparr>src = Some ''/(.*)'', dest = Some ''/index'', headers = None, handle = None\<rparr>"

definition make_routes :: "string \<Rightarrow> fileset \<Rightarrow> route list" where
  "make_routes public staticFiles =
     [cache_rule (''/'' @ public @ ''.+'')]
     @ map (\<lambda>f. cache_rule (''/'' @ f)) (object_keys staticFiles)
     @ [filesystem_rule, catch_all_rule]"

definition assets :: "fileset \<Rightarrow> (string \<times> output_item) list" where
  "assets fl = map (\<lambda>kv. (fst kv, Asset (snd kv))) fl"

definition make_output ::
  "(string \<times> lambda) list \<Rightarrow> fileset \<Rightarrow> fileset \<Rightarrow> fileset \<Rightarrow> (string \<times> output_item) list" where
  "make_output lambdas clientDistFiles staticFiles generatedPagesFiles =
     object_assign (object_assign (object_assign
       (object_assign [] (map (\<lambda>kv. (fst kv, Function (snd kv))) lambdas))
       (assets clientDistFiles)) (assets staticFiles)) (assets generatedPagesFiles)"

definition collect_artifacts ::
  "externals \<Rightarrow> process \<Rightarrow> buildOptions \<Rightarrow> prepared \<Rightarrow> settings \<Rightarrow> string \<Rightarrow> builderOutput io" where
  "collect_artifacts ext env opts p s sfx =
     (let entry = entrypointPath (paths p) in
      io_bind (startStep ''Collect artifacts'') (\<lambda>_.
      io_bind (glob ext ''**'' (path_join [entry, srcDir s, staticDir s])) (\<lambda>staticFiles.
      io_bind (globAndPrefix ext ''**'' (path_join [entry, buildDir s, ''dist/client''])
                 (publicPath s)) (\<lambda>clientDistFiles.
      io_bind (globAndPrefix ext ''**'' (path_join [entry, buildDir s, ''dist/server''])
                 (path_join [''.nuxt'', ''dist/server''])) (\<lambda>serverDistFiles.
      io_bind (if generateStaticRoutes (config opts) = Some True
               then globAndPrefix ext ''**/*.*'' (path_join [entry, ''dist'']) ''./''
               else io_return []) (\<lambda>generatedPagesFiles.
      io_bind (globAndPrefix ext ''**'' (path_join [entry, ''node_modules_prod''])
                 ''node_modules'') (\<lambda>nodeModules.
      io_bind (readFile (path_join [dirname env, ''launcher.js''])) (\<lambda>template.
      io_bind (reads (\<lambda>w. path_resolve (cwd w) [entry, nuxtConfigName s])) (\<lambda>configPath.
      let launcherSrc = launcher_source sfx (nuxtConfigName s) (usesServerMiddleware s) template;
          launcherFiles =
            object_assign (object_assign (object_assign
              (object_assign []
                 [(''vercel__launcher.js'', FileBlob launcherSrc),
                  (''vercel__bridge.js'', FileFsRef (nodeBridge env)),
                  (nuxtConfigName s, FileFsRef configPath)])
              serverDistFiles) (compiledTypescriptFiles s)) nodeModules
      in
      io_bind (merge_patterns ext entry (extra_patterns (config opts)) launcherFiles) (\<lambda>merged.
      io_bind (createLambda ''vercel__launcher.launcher'' (nodeVersion p) merged
                 [(''NODE_ENV'', ''production'')]
                 (maxDuration (config opts)) (memory (config opts))) (\<lambda>packaged.
      io_bind endStep (\<lambda>_.
      io_return
        \<lparr>output = make_output [(lambdaName s, packaged)] clientDistFiles staticFiles
                    generatedPagesFiles,
         routes = make_routes (publicPath s) staticFiles\<rparr>))))))))))))"

subsection \<open>The whole run\<close>

definition build :: "externals \<Rightarrow> process \<Rightarrow> buildOptions \<Rightarrow> builderOutput io" where
  "build ext env opts =
     io_bind (prepare_build ext env opts) (\<lambda>p.
     io_bind (install_devDependencies ext p) (\<lambda>_.
     io_bind (pre_build ext p) (\<lambda>_.
     io_bind (nuxt_build ext opts p) (\<lambda>s.
     io_bind (install_dependencies ext env p) (\<lambda>sfx.
     collect_artifacts ext env opts p s sfx)))))"

text \<open>A run starts on a disk and in a working directory, with nothing recorded yet.\<close>

definition run_build ::
  "externals \<Rightarrow> process \<Rightarrow> buildOptions \<Rightarrow> fsmap \<Rightarrow> string \<Rightarrow> (error + builderOutput) \<times> world" where
  "run_build ext env opts disk wd = build ext env opts \<lparr>fs = disk, cwd = wd, events = []\<rparr>"

section \<open>What a run is observed to do\<close>

text \<open>
  The statements about the order of the stages read the record of a run through its
  milestones: the two installs (told apart by the \<^verbatim>\<open>--production\<close> flag the builder passes),
  the rewriting of the manifest after the prune, and the writing and the unlinking of the
  registry-auth file. The builder calls \<^verbatim>\<open>fs.writeFile\<close> and \<^verbatim>\<open>fs.unlink\<close> for that file only and
  \<^verbatim>\<open>fs.writeJSON\<close> for the manifest only.
\<close>

datatype milestone =
    AuthWrite string string
  | DevInstallBegin
  | DevInstallEnd
  | ManifestPruned
  | ProdInstallBegin
  | ProdInstallEnd
  | AuthUnlink string

definition installs :: "string \<Rightarrow> call \<Rightarrow> bool" where
  "installs flag c = (case c of RunNpmInstall d args e \<Rightarrow> flag \<in> set args | _ \<Rightarrow> False)"

fun milestone_of :: "event \<Rightarrow> milestone option" where
  "milestone_of (Begin c) =
     (if installs ''--production=false'' c then Some DevInstallBegin
      else if installs ''--production=true'' c then Some ProdInstallBegin else None)"
| "milestone_of (End c) =
     (if installs ''--production=false'' c then Some DevInstallEnd
      else if installs ''--production=true'' c then Some ProdInstallEnd else None)"
| "milestone_of (FsWriteFile p content) = Some (AuthWrite p content)"
| "milestone_of (FsWriteJSON p obj) = Some ManifestPruned"
| "milestone_of (FsUnlink p) = Some (AuthUnlink p)"
| "milestone_of _ = None"

definition milestones :: "world \<Rightarrow> milestone list" where
  "milestones w = List.map_filter milestone_of (events w)"

text \<open>The milestones of a run that goes through, in the working directory \<open>wd\<close> of its end.\<close>

definition auth_write :: "process \<Rightarrow> string \<Rightarrow> milestone list" where
  "auth_write env wd =
     (case NPM_AUTH_TOKEN env of
        None \<Rightarrow> []
      | Some token \<Rightarrow>
          if token = [] then []
          else [AuthWrite (path_resolve wd [''.npmrc''])
                  (''//registry.npmjs.org/:_authToken='' @ token)])"

definition auth_unlink :: "process \<Rightarrow> string \<Rightarrow> milestone list" where
  "auth_unlink env wd =
     (if truthy (NPM_AUTH_TOKEN env) then [AuthUnlink (path_resolve wd [''.npmrc''])] else [])"

definition plan :: "process \<Rightarrow> string \<Rightarrow> milestone list" where
  "plan env wd =
     auth_write env wd
     @ [DevInstallBegin, DevInstallEnd, ManifestPruned, ProdInstallBegin, ProdInstallEnd]
     @ auth_unlink env wd"

text \<open>A segment of a path: not empty, not \<^verbatim>\<open>.\<close> or \<^verbatim>\<open>..\<close>, and without a slash.\<close>

definition segment :: "string \<Rightarrow> bool" where
  "segment s = (s \<noteq> [] \<and> s \<noteq> ''.'' \<and> s \<noteq> ''..'' \<and> CHR ''/'' \<notin> set s)"

text \<open>The function packages of an output, with their names.\<close>

definition function_packages :: "(string \<times> output_item) list \<Rightarrow> (string \<times> lambda) list" where
  "function_packages out =
     concat (map (\<lambda>kv. case snd kv of Function l \<Rightarrow> [(fst kv, l)] | Asset _ \<Rightarrow> []) out)"

section \<open>Notions for the proofs\<close>

text \<open>A computation keeps an observation of the world when no run of it changes it.\<close>

definition keeps :: "(world \<Rightarrow> 'x) \<Rightarrow> 'a io \<Rightarrow> bool" where
  "keeps g m = (\<forall>w r w'. m w = (r, w') \<longrightarrow> g w' = g w)"

text \<open>A computation raises only errors of a kind when every failing run of it ends in one.\<close>

definition raises :: "(error \<Rightarrow> bool) \<Rightarrow> 'a io \<Rightarrow> bool" where
  "raises P m = (\<forall>w e w'. m w = (Inl e, w') \<longrightarrow> P e)"

text \<open>
  A computation follows a list of milestones when every run of it adds the whole list, or,
  when it fails, a prefix of it.
\<close>

definition follows :: "(string \<Rightarrow> milestone list) \<Rightarrow> 'a io \<Rightarrow> bool" where
  "follows steps m =
     (\<forall>w r w'. m w = (r, w') \<longrightarrow>
        (\<exists>reached. milestones w' = milestones w @ reached \<and>
           (case r of Inr _ \<Rightarrow> reached = steps (cwd w') | Inl _ \<Rightarrow> prefix reached (steps (cwd w')))))"

text \<open>What the loop over the extra patterns computes when the entry path is absolute.\<close>

definition merge_all :: "externals \<Rightarrow> string \<Rightarrow> fsmap \<Rightarrow> string list \<Rightarrow> fileset \<Rightarrow> fileset" where
  "merge_all ext entry disk ps fl = foldl (\<lambda>acc p. object_assign acc (glob_files ext p entry disk)) fl ps"

text \<open>The files a function package starts from, before the extra patterns are merged in.\<close>

definition launcher_files :: "process \<Rightarrow> settings \<Rightarrow> string \<Rightarrow> string \<Rightarrow> string \<Rightarrow> fileset \<Rightarrow> fileset \<Rightarrow> fileset" where
  "launcher_files env s sfx template configPath serverDistFiles nodeModules =
     object_assign (object_assign (object_assign
       (object_assign []
          [(''vercel__launcher.js'', FileBlob (launcher_source sfx (nuxtConfigName s) (usesServerMiddleware s) template)),
           (''vercel__bridge.js'', FileFsRef (nodeBridge env)),
           (nuxtConfigName s, FileFsRef configPath)])
       serverDistFiles) (compiledTypescriptFiles s)) nodeModules"

section \<open>A sample project\<close>

text \<open>
  Modelled from the spec: \<^verbatim>\<open>preparePkgForProd\<close> lives in \<^verbatim>\<open>./utils\<close>, which is not among the
  sources. The prune removes all dependencies except the one designated core framework
  dependency and returns the variant suffix of that dependency, found by probing which of
  several alternative package names is declared. The alternatives are a parameter: the spec
  does not name them. Nothing is returned when none of them is declared.
\<close>

definition prune_manifest :: "(string \<times> string) list \<Rightarrow> package_json \<Rightarrow> (string \<times> package_json) option" where
  "prune_manifest variants p =
     (case find (\<lambda>v. has_key (fst v) (dependencies p)) variants of
        None \<Rightarrow> None
      | Some v \<Rightarrow>
          Some (snd v, p\<lparr>dependencies := map_option (filter (\<lambda>kv. fst kv = fst v)) (dependencies p),
                         devDependencies := None\<rparr>))"

definition sample_manifest :: package_json where
  "sample_manifest =
     \<lparr>scripts = None,
      dependencies = Some [(''lodash'', ''4.17.21''), (''nuxt'', ''2.15.8'')],
      devDependencies = Some [(''eslint'', ''7.32.0'')]\<rparr>"

definition sample_pruned :: package_json where
  "sample_pruned =
     \<lparr>scripts = None, dependencies = Some [(''nuxt'', ''2.15.8'')], devDependencies = None\<rparr>"

definition sample_effect :: "call \<Rightarrow> fsmap \<Rightarrow> fsmap option" where
  "sample_effect c disk =
     (case c of
        Download fl work \<Rightarrow>
          Some (object_assign disk
            (concat (map (\<lambda>kv. case file_content disk (snd kv) of
                                  None \<Rightarrow> [] | Some d \<Rightarrow> [(path_join [work, fst kv], d)]) fl)))
      | Exec cmd args \<Rightarrow>
          Some (object_assign disk
            [(''/w/app/.nuxt/dist/client/app.js'', ''client''),
             (''/w/app/.nuxt/dist/server/server.js'', ''server'')])
      | _ \<Rightarrow> Some disk)"

definition sample_minimatch :: "string \<Rightarrow> string \<Rightarrow> bool" where
  "sample_minimatch pattern p = (pattern = ''**'' \<or> pattern = p)"

definition sample_externals :: "string option \<Rightarrow> string \<Rightarrow> externals" where
  "sample_externals name version =
     \<lparr>validateEntrypoint = (\<lambda>e. e \<noteq> [] \<and> \<not> isAbsolute e),
      effect = sample_effect,
      parseJSON = map_of [(''{original}'', sample_manifest), (''{pruned}'', sample_pruned)],
      stringifyJSON = (\<lambda>p. if p = sample_pruned then ''{pruned}'' else ''{original}''),
      getNodeVersion = (\<lambda>_ _. Some ''nodejs14.x''),
      getNuxtConfigName = (\<lambda>_ _. ''nuxt.config.js''),
      getNuxtConfig = (\<lambda>_ _ _. Some \<lparr>dir_static = None, build_publicPath = None, buildDir = None,
                                       srcDir = None, lambdaName = name, serverMiddleware = False\<rparr>),
      prepareTypescriptEnvironment = (\<lambda>p. p),
      compileTypescriptBuildFiles = (\<lambda>_ _ _. []),
      preparePkgForProd = prune_manifest [(''nuxt-edge'', ''-edge''), (''nuxt'', [])],
      resolvePackageVersion = (\<lambda>_ _ _. Some version),
      minimatch = sample_minimatch\<rparr>"

definition sample_process :: process where
  "sample_process =
     \<lparr>NPM_AUTH_TOKEN = Some ''t0k'', dirname = ''/b/lib'', nodeBridge = ''/b/bridge.js''\<rparr>"

definition sample_config :: nuxtBuilderConfig where
  "sample_config =
     \<lparr>maxDuration = None, memory = None, tscOptions = None, generateStaticRoutes = None,
      includeFiles = Some (Many [''secrets.json'', ''missing.txt'']), serverFiles = None,
      internalServer = None, app = None, buildFiles = None\<rparr>"

definition sample_options :: buildOptions where
  "sample_options =
     \<lparr>files = [(''app/nuxt.config.js'', FileBlob ''export default {}''),
              (''app/package.json'', FileBlob ''{original}''),
              (''app/static/favicon.ico'', FileBlob ''icon''),
              (''app/static/index'', FileBlob ''hello''),
              (''app/secrets.json'', FileBlob ''{}'')],
      entrypoint = ''app/nuxt.config.js'',
      workPath = ''/w'',
      config = sample_config\<rparr>"

definition sample_disk :: fsmap where
  "sample_disk =
     [(''/b/lib/launcher.js'', ''core__NUXT_SUFFIX__(__NUXT_CONFIG__, /* __ENABLE_INTERNAL_SERVER__ */ true)''),
      (''/b/.yarnclean'', ''*.md''),
      (''/b/bridge.js'', ''bridge'')]"

definition sample_world :: world where
  "sample_world = \<lparr>fs = sample_disk, cwd = ''/'', events = []\<rparr>"

text \<open>The sample run, stage by stage.\<close>

definition sample_download :: call where
  "sample_download = Download (files sample_options) ''/w''"

definition sample_disk1 :: fsmap where
  "sample_disk1 = sample_disk @
     [(''/w/app/nuxt.config.js'', ''export default {}''),
      (''/w/app/package.json'', ''{original}''),
      (''/w/app/static/favicon.ico'', ''icon''),
      (''/w/app/static/index'', ''hello''),
      (''/w/app/secrets.json'', ''{}''),
      (''/w/app/.npmrc'', ''//registry.npmjs.org/:_authToken=t0k''),
      (''/w/app/.yarnclean'', ''*.md'')]"

definition sample_events1 :: "event list" where
  "sample_events1 =
     [StartStep ''Prepare build'', Begin sample_download, End sample_download,
      Chdir ''/w'', Chdir ''/w/app'',
      Begin (GetNodeVersion ''/w/app''), End (GetNodeVersion ''/w/app''),
      FsWriteFile ''/w/app/.npmrc'' ''//registry.npmjs.org/:_authToken=t0k'',
      FsCopyFile ''/b/.yarnclean'' ''/w/app/.yarnclean'',
      FsMkdirp ''/w/app/.vercel_cache'', FsMkdirp ''/w/app/.vercel_cache/yarn'']"

definition sample_prepared :: prepared where
  "sample_prepared =
     \<lparr>paths = \<lparr>entrypointDir = ''app'', entrypointPath = ''/w/app'', rootPath = ''/w'',
               modulesPath = ''/w/app/node_modules''\<rparr>,
      pkg = sample_manifest, nodeVersion = ''nodejs14.x'', needsTypescriptBuild = False,
      yarnCachePath = ''/w/app/.vercel_cache/yarn''\<rparr>"

definition sample_events2 :: "event list" where
  "sample_events2 = sample_events1 @
     [StartStep ''Install devDependencies'',
      Begin (PrepareNodeModules ''/w/app'' ''node_modules_dev''),
      End (PrepareNodeModules ''/w/app'' ''node_modules_dev''),
      Begin (dev_install sample_prepared), End (dev_install sample_prepared)]"

definition sample_nuxt_build :: call where
  "sample_nuxt_build =
     Exec ''nuxt'' [''build'', ''--standalone'', ''--no-lock'',
                   ''--config-file '' @ [CHR 0x22] @ ''nuxt.config.js'' @ [CHR 0x22]]"

definition sample_disk4 :: fsmap where
  "sample_disk4 = sample_disk1 @
     [(''/w/app/.nuxt/dist/client/app.js'', ''client''),
      (''/w/app/.nuxt/dist/server/server.js'', ''server'')]"

definition sample_events4 :: "event list" where
  "sample_events4 = sample_events2 @
     [StartStep ''Nuxt build'',
      Begin (GetNuxtConfig ''/w/app'' ''nuxt.config.js''),
      End (GetNuxtConfig ''/w/app'' ''nuxt.config.js''),
      Begin sample_nuxt_build, End sample_nuxt_build]"

definition sample_settings :: "string \<Rightarrow> settings" where
  "sample_settings name =
     \<lparr>compiledTypescriptFiles = [], nuxtConfigName = ''nuxt.config.js'', staticDir = ''static'',
      publicPath = ''_nuxt/'', buildDir = ''.nuxt'', srcDir = ''.'', lambdaName = name,
      usesServerMiddleware = False\<rparr>"

definition sample_disk5 :: fsmap where
  "sample_disk5 =
     AList.delete ''/w/app/.npmrc'' (AList.update ''/w/app/package.json'' ''{pruned}'' sample_disk4)"

definition sample_events5 :: "event list" where
  "sample_events5 = sample_events4 @
     [StartStep ''Install dependencies'',
      Begin (PrepareNodeModules ''/w/app'' ''node_modules_prod''),
      End (PrepareNodeModules ''/w/app'' ''node_modules_prod''),
      FsWriteJSON ''/w/app/package.json'' sample_pruned,
      Begin (prod_install sample_prepared), End (prod_install sample_prepared),
      FsUnlink ''/w/app/.npmrc'']"

definition sample_end :: world where
  "sample_end =
     \<lparr>fs = sample_disk5, cwd = ''/w/app'',
      events = sample_events5 @ [StartStep ''Collect artifacts'', EndStep]\<rparr>"

definition sample_package :: lambda where
  "sample_package =
     \<lparr>handler = ''vercel__launcher.launcher'', runtime = ''nodejs14.x'',
      zipBuffer =
        [(''vercel__launcher.js'', ''core(./nuxt.config.js, false)''),
         (''vercel__bridge.js'', ''bridge''),
         (''nuxt.config.js'', ''export default {}''),
         (''.nuxt/dist/server/server.js'', ''server''),
         (''secrets.json'', ''{}''),
         (''package.json'', ''{pruned}'')],
      environment = [(''NODE_ENV'', ''production'')],
      lambda_maxDuration = None, lambda_memory = None\<rparr>"

definition sample_routes :: "route list" where
  "sample_routes =
     [cache_rule ''/_nuxt/.+'', cache_rule ''/favicon.ico'', cache_rule ''/index'',
      filesystem_rule, catch_all_rule]"

definition sample_output :: "string \<Rightarrow> builderOutput" where
  "sample_output name =
     \<lparr>output =
        (if name = ''index'' then [] else [(name, Function sample_package)]) @
        (if name = ''index'' then [(''index'', Asset (FileFsRef ''/w/app/static/index''))] else []) @
        [(''_nuxt/app.js'', Asset (FileFsRef ''/w/app/.nuxt/dist/client/app.js'')),
         (''favicon.ico'', Asset (FileFsRef ''/w/app/static/favicon.ico''))] @
        (if name = ''index'' then [] else [(''index'', Asset (FileFsRef ''/w/app/static/index''))]),
      routes = sample_routes\<rparr>"

definition sample_milestones :: "milestone list" where
  "sample_milestones =
     [AuthWrite ''/w/app/.npmrc'' ''//registry.npmjs.org/:_authToken=t0k'',
      DevInstallBegin, DevInstallEnd, ManifestPruned, ProdInstallBegin, ProdInstallEnd,
      AuthUnlink ''/w/app/.npmrc'']"

text \<open>The same project without its manifest, and the state in which the manifest is looked for.\<close>

definition sample_options_bare :: buildOptions where
  "sample_options_bare =
     sample_options\<lparr>files := [(''app/nuxt.config.js'', FileBlob ''export default {}'')]\<rparr>"

definition sample_entered :: world where
  "sample_entered =
     \<lparr>fs = sample_disk @ [(''/w/app/nuxt.config.js'', ''export default {}'')],
      cwd = ''/w/app'',
      events = [StartStep ''Prepare build'',
                Begin (Download [(''app/nuxt.config.js'', FileBlob ''export default {}'')] ''/w''),
                End (Download [(''app/nuxt.config.js'', FileBlob ''export default {}'')] ''/w''),
                Chdir ''/w'', Chdir ''/w/app'']\<rparr>"

text \<open>The same project with a framework too old, and with one newer than the tested ones.\<close>

definition sample_events_installed :: "event list" where
  "sample_events_installed = sample_events4 @
     [StartStep ''Install dependencies'',
      Begin (PrepareNodeModules ''/w/app'' ''node_modules_prod''),
      End (PrepareNodeModules ''/w/app'' ''node_modules_prod''),
      FsWriteJSON ''/w/app/package.json'' sample_pruned,
      Begin (prod_install sample_prepared), End (prod_install sample_prepared)]"

definition sample_unsupported :: world where
  "sample_unsupported =
     \<lparr>fs = AList.update ''/w/app/package.json'' ''{pruned}'' sample_disk4, cwd = ''/w/app'',
      events = sample_events_installed\<rparr>"

definition sample_warning :: event where
  "sample_warning = Warn ''WARNING: nuxt >= 3.0.0 is not tested against this builder!''"

definition sample_events_untested :: "event list" where
  "sample_events_untested = sample_events_installed @ [sample_warning, FsUnlink ''/w/app/.npmrc'']"

definition sample_end_untested :: world where
  "sample_end_untested =
     \<lparr>fs = sample_disk5, cwd = ''/w/app'',
      events = sample_events_untested @ [StartStep ''Collect artifacts'', EndStep]\<rparr>"

text \<open>A manifest that is on disk and is not JSON.\<close>

definition sample_unparsable :: world where
  "sample_unparsable = \<lparr>fs = [(''/w/app/package.json'', ''{'')], cwd = ''/w/app'', events = []\<rparr>"


named_theorems keeps_intros


subsection \<open>Paths\<close>

lemma split_slash_nonempty: "split_slash p \<noteq> []"
  by (induction p) (auto split: list.splits)

lemma split_slash_no_slash: "s \<in> set (split_slash p) \<Longrightarrow> CHR ''/'' \<notin> set s"
  by (induction p arbitrary: s) (auto split: list.splits if_splits)

lemma split_slash_plain: "CHR ''/'' \<notin> set s \<Longrightarrow> split_slash s = [s]"
  by (induction s) auto

lemma split_slash_append: "split_slash (a @ CHR ''/'' # b) = split_slash a @ split_slash b"
  by (induction a) (auto split: list.splits simp: split_slash_nonempty)

lemma split_join_slash:
  "segs \<noteq> [] \<Longrightarrow> \<forall>s \<in> set segs. CHR ''/'' \<notin> set s \<Longrightarrow> split_slash (join_slash segs) = segs"
proof (induction segs rule: join_slash.induct)
  case 1
  then show ?case by simp
next
  case (2 s)
  then show ?case by (simp add: split_slash_plain)
next
  case (3 s t ss)
  then show ?case by (simp add: split_slash_append split_slash_plain)
qed

lemma join_slash_snoc:
  "join_slash (segs @ [s]) = (if segs = [] then s else join_slash segs @ CHR ''/'' # s)"
  by (induction segs rule: join_slash.induct) auto

lemma join_slash_empty: "\<forall>s \<in> set segs. s \<noteq> [] \<Longrightarrow> join_slash segs = [] \<longleftrightarrow> segs = []"
  by (induction segs rule: join_slash.induct) auto

lemma normalize_step_segment:
  "\<forall>s \<in> set res. segment s \<Longrightarrow> CHR ''/'' \<notin> set seg \<Longrightarrow>
   \<forall>s \<in> set (normalize_step False res seg). segment s"
  by (auto simp: normalize_step_def segment_def dest: in_set_butlastD)

lemma foldl_normalize_segment:
  "\<forall>s \<in> set res. segment s \<Longrightarrow> \<forall>s \<in> set segs. CHR ''/'' \<notin> set s \<Longrightarrow>
   \<forall>s \<in> set (foldl (normalize_step False) res segs). segment s"
proof (induction segs arbitrary: res)
  case Nil
  then show ?case by simp
next
  case (Cons a segs)
  have "\<forall>s \<in> set (normalize_step False res a). segment s"
    using Cons.prems by (intro normalize_step_segment) auto
  then show ?case using Cons by simp
qed

lemma normalize_segments_segment:
  "\<forall>s \<in> set (normalize_segments False (split_slash p)). segment s"
  unfolding normalize_segments_def
  by (rule foldl_normalize_segment) (auto dest: split_slash_no_slash)

lemma foldl_normalize_id:
  "\<forall>s \<in> set segs. segment s \<Longrightarrow> foldl (normalize_step b) res segs = res @ segs"
  by (induction segs arbitrary: res) (auto simp: normalize_step_def segment_def)

lemma path_resolve_absolute: "isAbsolute e \<Longrightarrow> path_resolve c [e] = path_resolve ''/'' [e]"
  by (auto simp: path_resolve_def isAbsolute_def split: list.splits)

lemma path_resolve_name:
  assumes "segment name"
  shows "path_resolve (path_resolve c args) [name] =
           (if path_resolve c args = ''/'' then ''/'' else path_resolve c args @ ''/'') @ name"
proof -
  define S where "S = normalize_segments False (split_slash (resolve_from c args))"
  have S: "\<forall>s \<in> set S. segment s" unfolding S_def by (rule normalize_segments_segment)
  have d: "path_resolve c args = CHR ''/'' # join_slash S"
    by (simp add: path_resolve_def normalizeString_def S_def)
  have nabs: "\<not> isAbsolute name" "name \<noteq> []"
    using assms by (auto simp: segment_def isAbsolute_def split: list.splits)
  have noslash: "\<forall>s \<in> set S. CHR ''/'' \<notin> set s" "\<forall>s \<in> set S. s \<noteq> []"
    using S by (auto simp: segment_def)
  have "split_slash (join_slash S @ CHR ''/'' # name) = (if S = [] then [[]] else S) @ [name]"
    using assms noslash
    by (simp add: split_slash_append split_slash_plain segment_def split_join_slash)
  then have split: "split_slash (CHR ''/'' # join_slash S @ CHR ''/'' # name) =
                 [] # (if S = [] then [[]] else S) @ [name]"
    by simp
  have norm: "normalize_segments False ([] # (if S = [] then [[]] else S) @ [name]) = S @ [name]"
    using S assms
    by (auto simp: normalize_segments_def foldl_normalize_id normalize_step_def segment_def)
  have "path_resolve (CHR ''/'' # join_slash S) [name] = CHR ''/'' # join_slash (S @ [name])"
    using nabs by (simp add: path_resolve_def normalizeString_def split norm del: split_slash.simps)
  then show ?thesis
    using noslash by (simp add: d join_slash_snoc join_slash_empty)
qed

lemma relative_to_entry:
  assumes "isAbsolute e" "segment name"
  shows "relative_to e (path_resolve (path_resolve c [e]) [name]) = Some name"
proof -
  have e: "path_resolve ''/'' [e] = path_resolve c [e]"
    using assms(1) by (simp add: path_resolve_absolute[of e c])
  have "name \<noteq> []" using assms(2) by (simp add: segment_def)
  then show ?thesis
    unfolding relative_to_def Let_def e path_resolve_name[OF assms(2)]
    by auto
qed


subsection \<open>Runs\<close>

lemma io_bind_Inr:
  "io_bind m f w = (Inr y, w') \<longleftrightarrow> (\<exists>x w1. m w = (Inr x, w1) \<and> f x w1 = (Inr y, w'))"
  by (auto simp: io_bind_def split: prod.splits sum.splits)

lemma io_bind_Inl:
  "io_bind m f w = (Inl e, w') \<longleftrightarrow>
     (m w = (Inl e, w') \<or> (\<exists>x w1. m w = (Inr x, w1) \<and> f x w1 = (Inl e, w')))"
  by (auto simp: io_bind_def split: prod.splits sum.splits)

lemma keeps_return [keeps_intros]: "keeps g (io_return x)"
  by (simp add: keeps_def io_return_def)

lemma keeps_throw [keeps_intros]: "keeps g (io_throw e)"
  by (simp add: keeps_def io_throw_def)

lemma keeps_reads [keeps_intros]: "keeps g (reads f)"
  by (simp add: keeps_def reads_def)

lemma keeps_bind [keeps_intros]:
  "keeps g m \<Longrightarrow> (\<And>x. keeps g (f x)) \<Longrightarrow> keeps g (io_bind m f)"
  unfolding keeps_def io_bind_def
  by (auto split: prod.splits sum.splits)

lemma keeps_catch [keeps_intros]:
  "keeps g m \<Longrightarrow> (\<And>e. keeps g (h e)) \<Longrightarrow> keeps g (io_catch m h)"
  unfolding keeps_def io_catch_def
  by (auto split: prod.splits sum.splits)

lemma keeps_when [keeps_intros]: "keeps g m \<Longrightarrow> keeps g (io_when b m)"
  by (simp add: io_when_def keeps_return)

lemma keeps_if [keeps_intros]: "keeps g a \<Longrightarrow> keeps g b \<Longrightarrow> keeps g (if c then a else b)"
  by simp

lemma keeps_option [keeps_intros]:
  "keeps g a \<Longrightarrow> (\<And>x. keeps g (b x)) \<Longrightarrow> keeps g (case v of None \<Rightarrow> a | Some x \<Rightarrow> b x)"
  by (cases v) simp_all

lemma keeps_from_option [keeps_intros]: "keeps g (from_option e x)"
  by (cases x) (simp_all add: from_option_def keeps_intros)


subsection \<open>What the run leaves alone\<close>

lemma keeps_cwd_emit [keeps_intros]: "keeps cwd (emit ev)"
  by (simp add: keeps_def emit_def)

lemma keeps_fs_emit [keeps_intros]: "keeps fs (emit ev)"
  by (simp add: keeps_def emit_def)

lemma keeps_cwd_external [keeps_intros]: "keeps cwd (external ext c)"
  unfolding external_def
  by (intro keeps_intros) (simp add: keeps_def)

lemma keeps_query [keeps_intros]: "keeps g (emit (Begin c)) \<Longrightarrow> keeps g (emit (End c)) \<Longrightarrow> keeps g (query c f)"
  unfolding query_def
  by (intro keeps_intros)

lemma keeps_startStep [keeps_intros]: "keeps g (emit (StartStep n)) \<Longrightarrow> keeps g (startStep n)"
  by (simp add: startStep_def)

lemma keeps_endStep [keeps_intros]: "keeps g (emit EndStep) \<Longrightarrow> keeps g endStep"
  by (simp add: endStep_def)

lemma keeps_existsSync [keeps_intros]: "keeps g (existsSync p)"
  by (simp add: existsSync_def keeps_intros)

lemma keeps_readFile [keeps_intros]: "keeps g (readFile p)"
  unfolding readFile_def by (intro keeps_intros)

lemma keeps_readJSON [keeps_intros]: "keeps g (readJSON ext p)"
  unfolding readJSON_def by (intro keeps_intros)

lemma keeps_read_manifest [keeps_intros]: "keeps g (read_manifest ext)"
  unfolding read_manifest_def by (intro keeps_intros)

lemma keeps_cwd_writeFile [keeps_intros]: "keeps cwd (writeFile p c)"
  by (simp add: keeps_def writeFile_def)

lemma keeps_cwd_writeJSON [keeps_intros]: "keeps cwd (writeJSON ext p c)"
  by (simp add: keeps_def writeJSON_def)

lemma keeps_cwd_copyFile [keeps_intros]: "keeps cwd (copyFile a b)"
  unfolding copyFile_def
  by (intro keeps_intros) (simp add: keeps_def)

lemma keeps_cwd_mkdirp [keeps_intros]: "keeps cwd (mkdirp p)"
  by (simp add: keeps_def mkdirp_def)

lemma keeps_fs_mkdirp [keeps_intros]: "keeps fs (mkdirp p)"
  by (simp add: keeps_def mkdirp_def)

lemma keeps_cwd_unlink [keeps_intros]: "keeps cwd (unlink p)"
  by (auto simp: keeps_def unlink_def split: if_splits)

lemma keeps_glob [keeps_intros]: "keeps g (glob ext pattern d)"
  unfolding glob_def by (intro keeps_intros)

lemma keeps_globAndPrefix [keeps_intros]: "keeps g (globAndPrefix ext pattern d pre)"
  unfolding globAndPrefix_def by (intro keeps_intros)

lemma keeps_createLambda [keeps_intros]: "keeps g (createLambda h r fl env a b)"
  unfolding createLambda_def by (intro keeps_intros)

lemma keeps_merge_patterns [keeps_intros]: "keeps g (merge_patterns ext entry ps fl)"
  by (induction ps arbitrary: fl) (simp_all add: keeps_intros)

lemma keeps_cwd_write_npmrc [keeps_intros]: "keeps cwd (write_npmrc env)"
  unfolding write_npmrc_def by (intro keeps_intros)

lemma keeps_cwd_prepare_environment: "keeps cwd (prepare_environment ext env ps pkg0)"
  unfolding prepare_environment_def by (intro keeps_intros)

lemma keeps_cwd_install_devDependencies: "keeps cwd (install_devDependencies ext p)"
  unfolding install_devDependencies_def by (intro keeps_intros)

lemma keeps_cwd_pre_build: "keeps cwd (pre_build ext p)"
  unfolding pre_build_def by (intro keeps_intros)

lemma keeps_cwd_nuxt_build: "keeps cwd (nuxt_build ext opts p)"
  unfolding nuxt_build_def Let_def by (intro keeps_intros)

lemma keeps_cwd_validate [keeps_intros]: "keeps cwd (validate_nuxt_version ext entry sfx)"
  unfolding validate_nuxt_version_def by (intro keeps_intros)

lemma keeps_fs_validate [keeps_intros]: "keeps fs (validate_nuxt_version ext entry sfx)"
  unfolding validate_nuxt_version_def by (intro keeps_intros)

lemma keeps_cwd_install_dependencies: "keeps cwd (install_dependencies ext env p)"
  unfolding install_dependencies_def cleanup_npmrc_def by (intro keeps_intros)

lemma keeps_cwd_collect_artifacts: "keeps cwd (collect_artifacts ext env opts p s sfx)"
  unfolding collect_artifacts_def Let_def by (intro keeps_intros)

lemma keeps_fs_collect_artifacts: "keeps fs (collect_artifacts ext env opts p s sfx)"
  unfolding collect_artifacts_def Let_def by (intro keeps_intros)


subsection \<open>Milestones\<close>

lemma map_filter_snoc:
  "List.map_filter f (xs @ [x]) = List.map_filter f xs @ (case f x of None \<Rightarrow> [] | Some y \<Rightarrow> [y])"
  by (simp add: map_filter_def split: option.splits)

lemma map_filter_app: "List.map_filter f (xs @ ys) = List.map_filter f xs @ List.map_filter f ys"
  by (simp add: map_filter_def)

lemmas milestones_simps = milestones_def map_filter_app map_filter_simps

lemma keeps_milestones_simps [keeps_intros]:
  "milestone_of ev = None \<Longrightarrow> keeps milestones (emit ev)"
  by (simp add: keeps_def emit_def milestones_simps)

lemma keeps_milestones_external [keeps_intros]:
  "\<not> installs ''--production=false'' c \<Longrightarrow> \<not> installs ''--production=true'' c \<Longrightarrow>
   keeps milestones (external ext c)"
  unfolding external_def
  by (intro keeps_intros) (auto simp: keeps_def milestones_simps)

lemma keeps_milestones_chdir [keeps_intros]: "keeps milestones (chdir d)"
  by (simp add: keeps_def chdir_def milestones_simps)

lemma keeps_milestones_copyFile [keeps_intros]: "keeps milestones (copyFile a b)"
  unfolding copyFile_def
  by (intro keeps_intros) (simp add: keeps_def milestones_simps)

lemma keeps_milestones_mkdirp [keeps_intros]: "keeps milestones (mkdirp p)"
  by (simp add: keeps_def mkdirp_def milestones_simps)

lemma keeps_milestones_enter_workspace: "keeps milestones (enter_workspace ext opts)"
  unfolding enter_workspace_def Let_def
  by (intro keeps_intros) (simp_all add: installs_def)

lemma keeps_milestones_pre_build: "keeps milestones (pre_build ext p)"
  unfolding pre_build_def
  by (intro keeps_intros) (simp_all add: installs_def)

lemma keeps_milestones_nuxt_build: "keeps milestones (nuxt_build ext opts p)"
  unfolding nuxt_build_def Let_def
  by (intro keeps_intros) (simp_all add: installs_def)

lemma keeps_milestones_collect_artifacts: "keeps milestones (collect_artifacts ext env opts p s sfx)"
  unfolding collect_artifacts_def Let_def
  by (intro keeps_intros) (simp_all add: installs_def)

lemma follows_quiet: "keeps milestones m \<Longrightarrow> follows (\<lambda>_. []) m"
  by (auto simp: follows_def keeps_def split: sum.splits)

lemma follows_quiet_bind:
  assumes "keeps milestones m" "\<And>x. follows steps (f x)"
  shows "follows steps (io_bind m f)"
  unfolding follows_def
proof (intro allI impI)
  fix w r w'
  assume run: "io_bind m f w = (r, w')"
  obtain r1 w1 where m: "m w = (r1, w1)" by (cases "m w")
  have same: "milestones w1 = milestones w" using assms(1) m by (simp add: keeps_def)
  show "\<exists>reached. milestones w' = milestones w @ reached \<and>
           (case r of Inr _ \<Rightarrow> reached = steps (cwd w') | Inl _ \<Rightarrow> prefix reached (steps (cwd w')))"
  proof (cases r1)
    case (Inl e)
    then have "r = Inl e" "w' = w1" using run m by (simp_all add: io_bind_def)
    then show ?thesis using same by simp
  next
    case (Inr x)
    then have "f x w1 = (r, w')" using run m by (simp add: io_bind_def)
    with assms(2)[of x] obtain reached where "milestones w' = milestones w1 @ reached"
      "case r of Inr _ \<Rightarrow> reached = steps (cwd w') | Inl _ \<Rightarrow> prefix reached (steps (cwd w'))"
      unfolding follows_def by blast
    then show ?thesis using same by auto
  qed
qed

lemma follows_bind:
  assumes "follows a m" "\<And>x. follows b (f x)" "\<And>x. keeps cwd (f x)"
  shows "follows (\<lambda>wd. a wd @ b wd) (io_bind m f)"
  unfolding follows_def
proof (intro allI impI)
  fix w r w'
  assume run: "io_bind m f w = (r, w')"
  obtain r1 w1 where m: "m w = (r1, w1)" by (cases "m w")
  from assms(1) m obtain got where got: "milestones w1 = milestones w @ got"
    "case r1 of Inr _ \<Rightarrow> got = a (cwd w1) | Inl _ \<Rightarrow> prefix got (a (cwd w1))"
    unfolding follows_def by blast
  show "\<exists>reached. milestones w' = milestones w @ reached \<and>
           (case r of Inr _ \<Rightarrow> reached = a (cwd w') @ b (cwd w')
            | Inl _ \<Rightarrow> prefix reached (a (cwd w') @ b (cwd w')))"
  proof (cases r1)
    case (Inl e)
    then have "r = Inl e" "w' = w1" using run m by (simp_all add: io_bind_def)
    then show ?thesis using got Inl by (auto intro: prefix_prefix)
  next
    case (Inr x)
    then have f: "f x w1 = (r, w')" using run m by (simp add: io_bind_def)
    then have wd: "cwd w' = cwd w1" using assms(3)[of x] by (simp add: keeps_def)
    from assms(2)[of x] f obtain more where more: "milestones w' = milestones w1 @ more"
      "case r of Inr _ \<Rightarrow> more = b (cwd w') | Inl _ \<Rightarrow> prefix more (b (cwd w'))"
      unfolding follows_def by blast
    have "got = a (cwd w')" using got(2) Inr wd by simp
    then show ?thesis using got(1) more by (auto split: sum.splits)
  qed
qed

lemma follows_bind_quiet:
  assumes "follows a m" "\<And>x. keeps milestones (f x)" "\<And>x. keeps cwd (f x)"
  shows "follows a (io_bind m f)"
  using follows_bind[OF assms(1) follows_quiet[OF assms(2)] assms(3)] by simp

lemma follows_external:
  "milestone_of (Begin c) = Some b \<Longrightarrow> milestone_of (End c) = Some e \<Longrightarrow>
   follows (\<lambda>_. [b, e]) (external ext c)"
  by (auto simp: follows_def external_def io_bind_def emit_def reads_def io_throw_def milestones_simps
           simp del: milestone_of.simps split: option.splits)

lemma follows_write_npmrc: "follows (auth_write env) (write_npmrc env)"
  by (auto simp: follows_def write_npmrc_def auth_write_def truthy_def io_when_def io_return_def
                 writeFile_def absolute_def milestones_simps
           split: option.splits)

lemma follows_cleanup_npmrc: "follows (auth_unlink env) (cleanup_npmrc env)"
  by (auto simp: follows_def cleanup_npmrc_def auth_unlink_def truthy_def io_when_def io_return_def
                 unlink_def absolute_def milestones_simps
           split: option.splits if_splits)

lemma follows_writeJSON: "follows (\<lambda>_. [ManifestPruned]) (writeJSON ext p obj)"
  by (auto simp: follows_def writeJSON_def milestones_simps)


lemma follows_prepare_environment: "follows (auth_write env) (prepare_environment ext env ps pkg0)"
  unfolding prepare_environment_def
  apply (rule follows_quiet_bind, (intro keeps_intros; simp add: installs_def))+
  apply (rule follows_bind_quiet[OF follows_write_npmrc])
   apply (intro keeps_intros; simp add: installs_def)
  apply (intro keeps_intros)
  done

lemma follows_prepare_build: "follows (auth_write env) (prepare_build ext env opts)"
  unfolding prepare_build_def
  by (intro follows_quiet_bind keeps_milestones_enter_workspace keeps_read_manifest
        follows_prepare_environment)

lemma follows_install_devDependencies:
  "follows (\<lambda>_. [DevInstallBegin, DevInstallEnd]) (install_devDependencies ext p)"
  unfolding install_devDependencies_def
  apply (rule follows_quiet_bind, (intro keeps_intros; simp add: installs_def))+
  apply (rule follows_external)
   apply (simp_all add: dev_install_def installs_def)
  done

lemma follows_install_dependencies:
  "follows (\<lambda>wd. [ManifestPruned, ProdInstallBegin, ProdInstallEnd] @ auth_unlink env wd)
     (install_dependencies ext env p)"
proof -
  have prod: "follows (\<lambda>_. [ProdInstallBegin, ProdInstallEnd]) (external ext (prod_install p))"
    by (rule follows_external) (simp_all add: prod_install_def installs_def)
  have 1: "follows (auth_unlink env) (io_bind (cleanup_npmrc env) (\<lambda>_. io_return x))" for x :: string
    by (rule follows_bind_quiet[OF follows_cleanup_npmrc]) (intro keeps_intros)+
  have 2: "follows (auth_unlink env)
             (io_bind (validate_nuxt_version ext e x) (\<lambda>_. io_bind (cleanup_npmrc env) (\<lambda>_. io_return x)))"
    for e x
    apply (rule follows_quiet_bind[OF _ 1])
    unfolding validate_nuxt_version_def
    apply (intro keeps_intros; simp)
    done
  have 3: "follows (\<lambda>wd. [ProdInstallBegin, ProdInstallEnd] @ auth_unlink env wd)
             (io_bind (external ext (prod_install p)) (\<lambda>_.
              io_bind (validate_nuxt_version ext e x) (\<lambda>_. io_bind (cleanup_npmrc env) (\<lambda>_. io_return x))))"
    for e x
    by (rule follows_bind[OF prod 2]) (unfold cleanup_npmrc_def, intro keeps_intros)
  have 4: "follows (\<lambda>wd. [ManifestPruned] @ [ProdInstallBegin, ProdInstallEnd] @ auth_unlink env wd)
             (io_bind (writeJSON ext n obj) (\<lambda>_.
              io_bind (external ext (prod_install p)) (\<lambda>_.
              io_bind (validate_nuxt_version ext e x) (\<lambda>_. io_bind (cleanup_npmrc env) (\<lambda>_. io_return x)))))"
    for e x n obj
    by (rule follows_bind[OF follows_writeJSON 3]) (unfold cleanup_npmrc_def, intro keeps_intros)
  show ?thesis
    unfolding install_dependencies_def
    apply (rule follows_quiet_bind, (intro keeps_intros; simp add: installs_def))+
    using 4 apply simp
    done
qed

lemma follows_build: "follows (plan env) (build ext env opts)"
proof -
  have 5: "follows (\<lambda>wd. [ManifestPruned, ProdInstallBegin, ProdInstallEnd] @ auth_unlink env wd)
             (io_bind (install_dependencies ext env p) (\<lambda>sfx. collect_artifacts ext env opts p s sfx))"
    for p s
    by (rule follows_bind_quiet[OF follows_install_dependencies keeps_milestones_collect_artifacts
          keeps_cwd_collect_artifacts])
  have 4: "follows (\<lambda>wd. [ManifestPruned, ProdInstallBegin, ProdInstallEnd] @ auth_unlink env wd)
             (io_bind (nuxt_build ext opts p) (\<lambda>s.
              io_bind (install_dependencies ext env p) (\<lambda>sfx. collect_artifacts ext env opts p s sfx)))"
    for p
    by (rule follows_quiet_bind[OF keeps_milestones_nuxt_build 5])
  have 3: "follows (\<lambda>wd. [ManifestPruned, ProdInstallBegin, ProdInstallEnd] @ auth_unlink env wd)
             (io_bind (pre_build ext p) (\<lambda>_.
              io_bind (nuxt_build ext opts p) (\<lambda>s.
              io_bind (install_dependencies ext env p) (\<lambda>sfx. collect_artifacts ext env opts p s sfx))))"
    for p
    by (rule follows_quiet_bind[OF keeps_milestones_pre_build 4])
  have 2: "follows (\<lambda>wd. [DevInstallBegin, DevInstallEnd] @
                          [ManifestPruned, ProdInstallBegin, ProdInstallEnd] @ auth_unlink env wd)
             (io_bind (install_devDependencies ext p) (\<lambda>_.
              io_bind (pre_build ext p) (\<lambda>_.
              io_bind (nuxt_build ext opts p) (\<lambda>s.
              io_bind (install_dependencies ext env p) (\<lambda>sfx. collect_artifacts ext env opts p s sfx)))))"
    for p
    by (rule follows_bind[OF follows_install_devDependencies 3])
       (intro keeps_intros keeps_cwd_pre_build keeps_cwd_nuxt_build keeps_cwd_install_dependencies
          keeps_cwd_collect_artifacts)
  have 1: "follows (\<lambda>wd. auth_write env wd @ [DevInstallBegin, DevInstallEnd] @
                          [ManifestPruned, ProdInstallBegin, ProdInstallEnd] @ auth_unlink env wd)
             (build ext env opts)"
    unfolding build_def
    by (rule follows_bind[OF follows_prepare_build 2])
       (intro keeps_intros keeps_cwd_install_devDependencies keeps_cwd_pre_build keeps_cwd_nuxt_build
          keeps_cwd_install_dependencies keeps_cwd_collect_artifacts)
  have "plan env = (\<lambda>wd. auth_write env wd @ [DevInstallBegin, DevInstallEnd] @
                          [ManifestPruned, ProdInstallBegin, ProdInstallEnd] @ auth_unlink env wd)"
    by (simp add: plan_def fun_eq_iff)
  with 1 show ?thesis by simp
qed

lemma run_build_plan:
  assumes "run_build ext env opts disk wd = (r, w')"
  shows "prefix (milestones w') (plan env (cwd w'))"
    and "r = Inr out \<Longrightarrow> milestones w' = plan env (cwd w')"
proof -
  from assms follows_build[of env ext opts]
  obtain reached where reached: "milestones w' = milestones \<lparr>fs = disk, cwd = wd, events = []\<rparr> @ reached"
    "case r of Inr _ \<Rightarrow> reached = plan env (cwd w') | Inl _ \<Rightarrow> prefix reached (plan env (cwd w'))"
    unfolding follows_def run_build_def by blast
  have "milestones \<lparr>fs = disk, cwd = wd, events = []\<rparr> = []"
    by (simp add: milestones_def map_filter_simps)
  with reached show "prefix (milestones w') (plan env (cwd w'))"
    by (auto split: sum.splits)
  show "milestones w' = plan env (cwd w')" if "r = Inr out"
    using that reached \<open>milestones \<lparr>fs = disk, cwd = wd, events = []\<rparr> = []\<close> by simp
qed

lemma split_unique:
  "x \<notin> set xs \<Longrightarrow> x \<notin> set ys \<Longrightarrow> xs @ x # ys = as @ x # bs \<Longrightarrow> as = xs \<and> bs = ys"
  by (metis append_Cons_eq_iff)

lemma prune_position:
  assumes "prefix ms (plan env wd)" "ms = before @ ManifestPruned # after"
  shows "before = auth_write env wd @ [DevInstallBegin, DevInstallEnd]"
    and "prefix after ([ProdInstallBegin, ProdInstallEnd] @ auth_unlink env wd)"
proof -
  from assms obtain rest where "plan env wd = before @ ManifestPruned # (after @ rest)"
    by (auto simp: prefix_def)
  then have "(auth_write env wd @ [DevInstallBegin, DevInstallEnd]) @ ManifestPruned #
               ([ProdInstallBegin, ProdInstallEnd] @ auth_unlink env wd) =
             before @ ManifestPruned # (after @ rest)"
    by (simp add: plan_def)
  then have "before = auth_write env wd @ [DevInstallBegin, DevInstallEnd] \<and>
             after @ rest = [ProdInstallBegin, ProdInstallEnd] @ auth_unlink env wd"
    by (intro split_unique) (auto simp: auth_write_def auth_unlink_def)
  then show "before = auth_write env wd @ [DevInstallBegin, DevInstallEnd]"
    and "prefix after ([ProdInstallBegin, ProdInstallEnd] @ auth_unlink env wd)"
    by (simp, metis prefixI)
qed

lemma prod_install_position:
  assumes "prefix ms (plan env wd)" "ms = before @ ProdInstallBegin # after"
  shows "before = auth_write env wd @ [DevInstallBegin, DevInstallEnd, ManifestPruned]"
proof -
  from assms obtain rest where "plan env wd = before @ ProdInstallBegin # (after @ rest)"
    by (auto simp: prefix_def)
  then have "(auth_write env wd @ [DevInstallBegin, DevInstallEnd, ManifestPruned]) @ ProdInstallBegin #
               ([ProdInstallEnd] @ auth_unlink env wd) =
             before @ ProdInstallBegin # (after @ rest)"
    by (simp add: plan_def)
  then have "before = auth_write env wd @ [DevInstallBegin, DevInstallEnd, ManifestPruned] \<and>
             after @ rest = [ProdInstallEnd] @ auth_unlink env wd"
    by (intro split_unique) (auto simp: auth_write_def auth_unlink_def)
  then show ?thesis by simp
qed

lemma dev_install_position:
  assumes "prefix ms (plan env wd)" "ms = before @ DevInstallBegin # after"
  shows "before = auth_write env wd"
proof -
  from assms obtain rest where "plan env wd = before @ DevInstallBegin # (after @ rest)"
    by (auto simp: prefix_def)
  then have "auth_write env wd @ DevInstallBegin #
               ([DevInstallEnd, ManifestPruned, ProdInstallBegin, ProdInstallEnd] @ auth_unlink env wd) =
             before @ DevInstallBegin # (after @ rest)"
    by (simp add: plan_def)
  then have "before = auth_write env wd \<and>
             after @ rest = [DevInstallEnd, ManifestPruned, ProdInstallBegin, ProdInstallEnd] @ auth_unlink env wd"
    by (intro split_unique) (auto simp: auth_write_def auth_unlink_def)
  then show ?thesis by simp
qed


subsection \<open>Runs that go through\<close>

lemma io_return_eq [simp]: "io_return x w = (r, w') \<longleftrightarrow> r = Inr x \<and> w' = w"
  by (auto simp: io_return_def)

lemma io_throw_eq [simp]: "io_throw e w = (r, w') \<longleftrightarrow> r = Inl e \<and> w' = w"
  by (auto simp: io_throw_def)

lemma reads_eq [simp]: "reads f w = (r, w') \<longleftrightarrow> r = Inr (f w) \<and> w' = w"
  by (auto simp: reads_def)

lemma emit_eq [simp]: "emit ev w = (r, w') \<longleftrightarrow> r = Inr () \<and> w' = w\<lparr>events := events w @ [ev]\<rparr>"
  by (auto simp: emit_def)

lemma from_option_Inr [simp]: "from_option e v w = (Inr x, w') \<longleftrightarrow> v = Some x \<and> w' = w"
  by (cases v) (auto simp: from_option_def)

lemma io_when_Inr [simp]:
  "io_when b m w = (Inr x, w') \<longleftrightarrow> (if b then m w = (Inr x, w') else w' = w)"
  by (auto simp: io_when_def)

lemma glob_Inr [simp]:
  "glob ext pattern d w = (Inr fl, w') \<longleftrightarrow>
     isAbsolute d \<and> fl = glob_files ext pattern d (fs w) \<and> w' = w"
  by (auto simp: glob_def)

lemma globAndPrefix_Inr:
  "globAndPrefix ext pattern d pre w = (Inr fl, w') \<Longrightarrow> isAbsolute d \<and> w' = w"
  by (auto simp: globAndPrefix_def io_bind_Inr)

lemma readFile_Inr [simp]:
  "readFile p w = (Inr c, w') \<longleftrightarrow> map_of (fs w) (absolute w p) = Some c \<and> w' = w"
  by (auto simp: readFile_def io_bind_Inr)

lemma createLambda_Inr:
  "createLambda h r fl env a b w = (Inr l, w') \<longleftrightarrow>
     zip_files (fs w) fl = Some (zipBuffer l) \<and> w' = w \<and>
     l = \<lparr>handler = h, runtime = r, zipBuffer = zipBuffer l, environment = env,
          lambda_maxDuration = a, lambda_memory = b\<rparr>"
  by (auto simp: createLambda_def io_bind_Inr split: option.splits)

lemma io_bind_InrE:
  assumes "io_bind m f w = (Inr y, w')"
  obtains x w1 where "m w = (Inr x, w1)" "f x w1 = (Inr y, w')"
  using assms by (auto simp: io_bind_Inr)

lemma merge_patterns_run:
  "isAbsolute entry \<Longrightarrow> merge_patterns ext entry ps fl w = (Inr (merge_all ext entry (fs w) ps fl), w)"
  by (induction ps arbitrary: fl) (simp_all add: merge_all_def io_bind_def glob_def reads_def)

lemma merge_patterns_Inr:
  assumes "merge_patterns ext entry (p # ps) fl w = (Inr merged, w')"
  shows "isAbsolute entry \<and> w' = w \<and> merged = merge_all ext entry (fs w) (p # ps) fl"
proof -
  have "isAbsolute entry" using assms by (auto simp: io_bind_Inr)
  then show ?thesis using assms merge_patterns_run[of entry ext "p # ps" fl w] by simp
qed

lemma build_Inr:
  assumes "build ext env opts w = (Inr out, w')"
  obtains p w1 w2 w3 s w4 sfx w5 where
    "prepare_build ext env opts w = (Inr p, w1)"
    "install_devDependencies ext p w1 = (Inr (), w2)"
    "pre_build ext p w2 = (Inr (), w3)"
    "nuxt_build ext opts p w3 = (Inr s, w4)"
    "install_dependencies ext env p w4 = (Inr sfx, w5)"
    "collect_artifacts ext env opts p s sfx w5 = (Inr out, w')"
  using assms unfolding build_def by (elim io_bind_InrE) auto

lemma collect_artifacts_Inr:
  assumes "collect_artifacts ext env opts p s sfx w = (Inr out, w')"
  shows "\<exists>clientDistFiles generatedPagesFiles launcherFiles packaged.
           isAbsolute (entrypointPath (paths p)) \<and>
           fs w' = fs w \<and> cwd w' = cwd w \<and>
           events w' = events w @ [StartStep ''Collect artifacts'', EndStep] \<and>
           zip_files (fs w) (merge_all ext (entrypointPath (paths p)) (fs w)
              (extra_patterns (config opts)) launcherFiles) = Some (zipBuffer packaged) \<and>
           output out = make_output [(lambdaName s, packaged)] clientDistFiles
              (glob_files ext ''**'' (path_join [entrypointPath (paths p), srcDir s, staticDir s]) (fs w))
              generatedPagesFiles \<and>
           routes out = make_routes (publicPath s)
              (glob_files ext ''**'' (path_join [entrypointPath (paths p), srcDir s, staticDir s]) (fs w))"
proof -
  have keep: "fs w' = fs w" "cwd w' = cwd w"
    using assms keeps_fs_collect_artifacts keeps_cwd_collect_artifacts
    by (auto simp: keeps_def)
  obtain pat rest where pats: "extra_patterns (config opts) = pat # rest"
    by (cases "extra_patterns (config opts)") (auto simp: extra_patterns_def)
  from assms show ?thesis
    unfolding collect_artifacts_def Let_def launcher_files_def[symmetric] pats
  proof (elim io_bind_InrE, goal_cases)
    case (1 u1 w1 staticFiles w2 clientDistFiles w3 serverDistFiles w4 generatedPagesFiles w5
            nodeModules w6 template w7 configPath w8 merged w9 packaged w10 u2 w11)
    have fs1: "fs w1 = fs w" using 1(1) by (auto simp: startStep_def)
    have w2: "w2 = w1" and st: "staticFiles = glob_files ext ''**''
        (path_join [entrypointPath (paths p), srcDir s, staticDir s]) (fs w)"
      using 1(2) fs1 by simp_all
    have w3: "w3 = w2" using 1(3) by (auto dest: globAndPrefix_Inr)
    have w4: "w4 = w3" using 1(4) by (auto dest: globAndPrefix_Inr)
    have w5: "w5 = w4" using 1(5) by (auto dest: globAndPrefix_Inr split: if_splits)
    have w6: "w6 = w5" using 1(6) by (auto dest: globAndPrefix_Inr)
    have w7: "w7 = w6" using 1(7) by simp
    have w8: "w8 = w7" using 1(8) by simp
    note m = merge_patterns_Inr[OF 1(9)]
    have w9: "fs w9 = fs w" using m w2 w3 w4 w5 w6 w7 w8 fs1 by simp
    have ev: "events w' = events w @ [StartStep ''Collect artifacts'', EndStep]"
      using 1(1,10,11,12) m w2 w3 w4 w5 w6 w7 w8
      by (auto simp: startStep_def endStep_def createLambda_Inr)
    have z: "zip_files (fs w) merged = Some (zipBuffer packaged)"
      using 1(10) w9 by (simp add: createLambda_Inr)
    have mg: "merged = merge_all ext (entrypointPath (paths p)) (fs w) (pat # rest)
                (launcher_files env s sfx template configPath serverDistFiles nodeModules)"
      using m w2 w3 w4 w5 w6 w7 w8 fs1 by simp
    have out: "out = \<lparr>output = make_output [(lambdaName s, packaged)] clientDistFiles staticFiles generatedPagesFiles,
              routes = make_routes (publicPath s) staticFiles\<rparr>"
      using 1(12) by simp
    show ?case
      apply (rule exI[of _ clientDistFiles], rule exI[of _ generatedPagesFiles])
      apply (rule exI[of _ "launcher_files env s sfx template configPath serverDistFiles nodeModules"])
      apply (rule exI[of _ packaged])
      using keep m z out ev unfolding mg st by simp
  qed
qed


subsection \<open>Objects\<close>

lemma object_assign_Cons:
  "object_assign a (x # b) = object_assign (AList.update (fst x) (snd x) a) b"
  by (simp add: object_assign_def)

lemma map_of_object_assign:
  "map_of (object_assign a b) k = (case map_of (rev b) k of None \<Rightarrow> map_of a k | Some v \<Rightarrow> Some v)"
proof (induction b arbitrary: a)
  case Nil
  then show ?case by (simp add: object_assign_def)
next
  case (Cons x b)
  show ?case
    by (cases x) (auto simp: object_assign_Cons Cons.IH update_conv' map_add_def split: option.splits)
qed

lemma map_of_rev_in: "map_of (rev b) k = Some v \<Longrightarrow> (k, v) \<in> set b"
  by (metis map_of_SomeD set_rev)

lemma map_of_rev_key: "(k, v) \<in> set b \<Longrightarrow> \<exists>v'. map_of (rev b) k = Some v'"
  by (metis image_eqI fst_conv map_of_eq_None_iff not_Some_eq set_rev)

lemma distinct_object_assign:
  "distinct (map fst a) \<Longrightarrow> distinct (map fst (object_assign a b))"
  by (induction b arbitrary: a) (simp_all add: object_assign_def distinct_update)

subsection \<open>Globbing\<close>

lemma glob_files_iff:
  "(rel, ref) \<in> set (glob_files ext pat d disk) \<longleftrightarrow>
     (\<exists>p c. (p, c) \<in> set disk \<and> relative_to d p = Some rel \<and> minimatch ext pat rel \<and> ref = FileFsRef p)"
proof
  assume "(rel, ref) \<in> set (glob_files ext pat d disk)"
  then show "\<exists>p c. (p, c) \<in> set disk \<and> relative_to d p = Some rel \<and> minimatch ext pat rel \<and> ref = FileFsRef p"
    by (auto simp: glob_files_def split: option.splits if_splits)
next
  assume "\<exists>p c. (p, c) \<in> set disk \<and> relative_to d p = Some rel \<and> minimatch ext pat rel \<and> ref = FileFsRef p"
  then obtain p c where "(p, c) \<in> set disk" "relative_to d p = Some rel" "minimatch ext pat rel" "ref = FileFsRef p"
    by blast
  then show "(rel, ref) \<in> set (glob_files ext pat d disk)"
    unfolding glob_files_def by (auto intro!: bexI[of _ "(p, c)"])
qed

lemma relative_to_inj: "relative_to d p = Some rel \<Longrightarrow> relative_to d q = Some rel \<Longrightarrow> p = q"
  by (auto simp: relative_to_def Let_def prefix_def split: if_splits)

lemma glob_files_coherent:
  "(rel, r1) \<in> set (glob_files ext p d disk) \<Longrightarrow> (rel, r2) \<in> set (glob_files ext q d disk) \<Longrightarrow> r1 = r2"
  by (auto simp: glob_files_iff dest: relative_to_inj)

lemma merge_all_snoc:
  "merge_all ext d disk (ps @ [p]) fl = object_assign (merge_all ext d disk ps fl) (glob_files ext p d disk)"
  by (simp add: merge_all_def)

lemma merge_all_has:
  assumes "p \<in> set ps" "(rel, ref) \<in> set (glob_files ext p d disk)"
  shows "map_of (merge_all ext d disk ps fl) rel = Some ref"
  using assms(1)
proof (induction ps rule: rev_induct)
  case Nil
  then show ?case by simp
next
  case (snoc q qs)
  show ?case
  proof (cases "map_of (rev (glob_files ext q d disk)) rel")
    case None
    then have "p \<noteq> q" using assms(2) map_of_rev_key by fastforce
    then have "p \<in> set qs" using snoc.prems by simp
    then show ?thesis using snoc.IH None by (simp add: merge_all_snoc map_of_object_assign)
  next
    case (Some v)
    then have "(rel, v) \<in> set (glob_files ext q d disk)" by (rule map_of_rev_in)
    then have "v = ref" using assms(2) glob_files_coherent by blast
    then show ?thesis using Some by (simp add: merge_all_snoc map_of_object_assign)
  qed
qed

lemma sequence_option_map_of:
  "sequence_option (map (\<lambda>kv. map_option (Pair (fst kv)) (g (snd kv))) fl) = Some z \<Longrightarrow>
   map_of z k = (case map_of fl k of None \<Rightarrow> None | Some f \<Rightarrow> g f)"
proof (induction fl arbitrary: z)
  case Nil
  then show ?case by simp
next
  case (Cons a fl)
  then show ?case
    by (cases a; cases "g (snd a)") (auto split: option.splits)
qed

lemma zip_files_map_of:
  "zip_files disk fl = Some z \<Longrightarrow>
   map_of z k = (case map_of fl k of None \<Rightarrow> None | Some f \<Rightarrow> file_content disk f)"
  unfolding zip_files_def by (rule sequence_option_map_of)

subsection \<open>Function packages in the output\<close>

lemma function_packages_append:
  "function_packages (a @ b) = function_packages a @ function_packages b"
  by (simp add: function_packages_def)

lemma function_packages_update_asset:
  "distinct (map fst out) \<Longrightarrow>
   function_packages (AList.update k (Asset f) out) = filter (\<lambda>kv. fst kv \<noteq> k) (function_packages out)"
proof (induction out)
  case Nil
  then show ?case by (simp add: function_packages_def)
next
  case (Cons a out)
  have rest: "fst a = k \<Longrightarrow> filter (\<lambda>kv. fst kv \<noteq> k) (function_packages out) = function_packages out"
    using Cons.prems
    by (intro filter_True) (force simp: function_packages_def split: output_item.splits)
  show ?case
    using Cons rest
    by (cases a; cases "snd a") (auto simp: function_packages_def)
qed

lemma function_packages_assign_assets:
  "distinct (map fst out) \<Longrightarrow>
   function_packages (object_assign out (assets fl)) =
     filter (\<lambda>kv. fst kv \<notin> set (object_keys fl)) (function_packages out)"
proof (induction fl arbitrary: out)
  case Nil
  then show ?case by (simp add: assets_def object_assign_def object_keys_def)
next
  case (Cons a fl)
  have "function_packages (object_assign out (assets (a # fl))) =
          function_packages (object_assign (AList.update (fst a) (Asset (snd a)) out) (assets fl))"
    by (simp add: assets_def object_assign_Cons)
  also have "\<dots> = filter (\<lambda>kv. fst kv \<notin> set (object_keys fl))
                     (function_packages (AList.update (fst a) (Asset (snd a)) out))"
    using Cons.prems by (intro Cons.IH) (simp add: distinct_update)
  also have "\<dots> = filter (\<lambda>kv. fst kv \<notin> set (object_keys (a # fl))) (function_packages out)"
    using Cons.prems by (auto simp: function_packages_update_asset object_keys_def intro: filter_cong)
  finally show ?case .
qed

lemma function_packages_make_output:
  "function_packages (make_output [(name, l)] c s g) =
     (if name \<in> set (object_keys c @ object_keys s @ object_keys g) then [] else [(name, l)])"
proof -
  have base: "object_assign [] [(name, Function l)] = [(name, Function l)]"
    by (simp add: object_assign_def)
  have d1: "distinct (map fst [(name, Function l)])" by simp
  note d2 = distinct_object_assign[OF d1, of "assets c"]
  note d3 = distinct_object_assign[OF d2, of "assets s"]
  show ?thesis
    unfolding make_output_def
    by (simp add: base function_packages_assign_assets d1 d2 d3)
       (simp add: function_packages_def)
qed

subsection \<open>The stages of a run that goes through\<close>

lemma query_Inr:
  "query c f w = (Inr v, w') \<longleftrightarrow>
     f (fs w) = Some v \<and> w' = w\<lparr>events := events w @ [Begin c, End c]\<rparr>"
  by (auto simp: query_def io_bind_def emit_def reads_def io_throw_def io_return_def
           split: option.splits)

lemma nuxt_build_Inr:
  assumes "nuxt_build ext opts p w = (Inr s, w')"
  shows "\<exists>(cfg::nuxtConfig) found. getNuxtConfig ext (entrypointPath (paths p)) ''nuxt.config.js'' found = Some cfg \<and>
           lambdaName s = or_default (nuxtConfig.lambdaName cfg) ''index'' \<and>
           publicPath s = strip_leading_slash (or_default (build_publicPath cfg) ''/_nuxt/'') \<and>
           staticDir s = or_default (dir_static cfg) ''static'' \<and>
           nuxtConfigName s = ''nuxt.config.js''"
  using assms unfolding nuxt_build_def Let_def
proof (elim io_bind_InrE, goal_cases)
  case (1 u1 w1 compiled w2 cfg w3 wd w4 u2 w5 u3 w6)
  from 1(3) have "getNuxtConfig ext (entrypointPath (paths p)) ''nuxt.config.js'' (fs w2) = Some cfg"
    by (simp add: query_Inr)
  then show ?case using 1(7) by auto
qed

lemma make_routes_length: "length (make_routes public st) = length st + 3"
  by (simp add: make_routes_def object_keys_def)

lemma cache_rule_distinct:
  "cache_rule x \<noteq> filesystem_rule" "cache_rule x \<noteq> catch_all_rule" "filesystem_rule \<noteq> catch_all_rule"
  by (simp_all add: cache_rule_def filesystem_rule_def catch_all_rule_def)

lemma make_routes_nth:
  "i < length st + 3 \<Longrightarrow>
   make_routes public st ! i =
     (if i = 0 then cache_rule (''/'' @ public @ ''.+'')
      else if i \<le> length st then cache_rule (''/'' @ fst (st ! (i - 1)))
      else if i = length st + 1 then filesystem_rule else catch_all_rule)"
  by (auto simp: make_routes_def object_keys_def nth_append nth_Cons' less_Suc_eq
           dest: less_antisym)

lemma make_routes_order:
  assumes "i < length (make_routes public st)" "j < length (make_routes public st)"
    "make_routes public st ! i = filesystem_rule" "make_routes public st ! j = catch_all_rule"
  shows "i < j"
proof -
  have i: "i = length st + 1"
    using assms(1,3) cache_rule_distinct
    by (auto simp: make_routes_length make_routes_nth split: if_splits)
  have j: "j = length st + 2"
    using assms(2,4) cache_rule_distinct
    by (auto simp: make_routes_length make_routes_nth split: if_splits)
  show ?thesis using i j by simp
qed

lemma external_Inr:
  "external ext c w = (Inr u, w') \<longleftrightarrow>
     (\<exists>d. effect ext c (fs w) = Some d \<and> w' = w\<lparr>fs := d, events := events w @ [Begin c, End c]\<rparr>)"
  by (auto simp: external_def io_bind_def emit_def reads_def io_throw_def split: option.splits)

lemma chdir_eq:
  "chdir d w = (r, w') \<longleftrightarrow>
     r = Inr () \<and> w' = w\<lparr>cwd := path_resolve (cwd w) [d],
                           events := events w @ [Chdir (path_resolve (cwd w) [d])]\<rparr>"
  by (auto simp: chdir_def)

lemma read_manifest_Inr:
  "read_manifest ext w = (Inr read, w') \<longleftrightarrow>
     (\<exists>content. map_of (fs w) (absolute w ''package.json'') = Some content \<and>
        parseJSON ext content = Some read) \<and> w' = w"
  by (auto simp: read_manifest_def io_catch_def readJSON_def readFile_def io_bind_def reads_def
                 from_option_def io_return_def io_throw_def
           split: option.splits prod.splits sum.splits)

lemma enter_workspace_Inr:
  assumes "enter_workspace ext opts w = (Inr ps, w')"
  shows "ps = resolve_paths (workPath opts) (entrypoint opts) \<and>
         validateEntrypoint ext (entrypoint opts) \<and>
         (\<exists>c. cwd w' = path_resolve c [entrypointPath ps])"
  using assms unfolding enter_workspace_def Let_def
proof (elim io_bind_InrE, goal_cases)
  case (1 u1 w1 u2 w2 u3 w3 u4 w4 u5 w5 u6 w6)
  have valid: "validateEntrypoint ext (entrypoint opts)"
    using 1(2) by (auto split: if_splits)
  have ps: "ps = resolve_paths (workPath opts) (entrypoint opts)" and w': "w' = w6"
    using 1(7) by simp_all
  have "cwd w6 = path_resolve (cwd w5) [entrypointPath (resolve_paths (workPath opts) (entrypoint opts))]"
    using 1(6) by (auto simp: chdir_eq)
  then show ?case using valid ps w' by blast
qed

lemma prepare_environment_Inr:
  assumes "prepare_environment ext env ps pkg0 w = (Inr p, w')"
  shows "paths p = ps \<and> cwd w' = cwd w \<and>
         pkg p = (if usesTypescript pkg0 then prepareTypescriptEnvironment ext pkg0 else pkg0)"
proof -
  have wd: "cwd w' = cwd w"
    using assms keeps_cwd_prepare_environment by (auto simp: keeps_def)
  from assms show ?thesis
    unfolding prepare_environment_def
  proof (elim io_bind_InrE, goal_cases)
    case (1 node w2 needsTs w3 pkg1 w4 u1 w5 found w6 u2 w7 cachePath w8 u3 w9 u4 w10)
    have "pkg1 = (if usesTypescript pkg0 then prepareTypescriptEnvironment ext pkg0 else pkg0)"
      using 1(3) by (auto simp: io_bind_Inr split: if_splits)
    moreover have "paths p = ps" "pkg p = pkg1" using 1(10) by auto
    ultimately show ?case using wd by auto
  qed
qed

lemma prepare_build_Inr:
  assumes "prepare_build ext env opts w = (Inr p, w')"
  shows "paths p = resolve_paths (workPath opts) (entrypoint opts) \<and>
         validateEntrypoint ext (entrypoint opts) \<and>
         (\<exists>c. cwd w' = path_resolve c [entrypointPath (paths p)]) \<and>
         (\<exists>content read. parseJSON ext content = Some read \<and>
            pkg p = (if usesTypescript read then prepareTypescriptEnvironment ext read else read))"
  using assms unfolding prepare_build_def
proof (elim io_bind_InrE, goal_cases)
  case (1 ps w1 read w2)
  note e = enter_workspace_Inr[OF 1(1)] and r = prepare_environment_Inr[OF 1(3)]
  from 1(2) obtain content where manifest: "parseJSON ext content = Some read" and w2: "w2 = w1"
    by (auto simp: read_manifest_Inr)
  have "\<exists>c. cwd w' = path_resolve c [entrypointPath (paths p)]" using e r w2 by auto
  moreover have "\<exists>content read. parseJSON ext content = Some read \<and>
            pkg p = (if usesTypescript read then prepareTypescriptEnvironment ext read else read)"
    using manifest r by blast
  ultimately show ?case using e r by blast
qed

lemma install_dependencies_Inr:
  assumes "install_dependencies ext env p w = (Inr sfx, w')"
  shows "\<exists>pruned before after.
           preparePkgForProd ext (pkg p) = Some (sfx, pruned) \<and>
           effect ext (prod_install p)
             (AList.update (absolute w ''package.json'') (stringifyJSON ext pruned) before) = Some after \<and>
           fs w' = (if truthy (NPM_AUTH_TOKEN env) then AList.delete (absolute w ''.npmrc'') after else after) \<and>
           cwd w' = cwd w"
proof -
  have wd: "cwd w' = cwd w"
    using assms keeps_cwd_install_dependencies by (auto simp: keeps_def)
  from assms show ?thesis
    unfolding install_dependencies_def
  proof (elim io_bind_InrE, goal_cases)
    case (1 u1 w1 u2 w2 nuxtDep w3 u3 w4 u4 w5 u5 w6 u6 w7)
    have c1: "cwd w1 = cwd w" using 1(1) by (auto simp: startStep_def)
    obtain d2 where w2: "w2 = w1\<lparr>fs := d2, events := events w1 @
        [Begin (PrepareNodeModules (entrypointPath (paths p)) ''node_modules_prod''),
         End (PrepareNodeModules (entrypointPath (paths p)) ''node_modules_prod'')]\<rparr>"
      using 1(2) by (auto simp: external_Inr)
    have dep: "preparePkgForProd ext (pkg p) = Some nuxtDep" and w3: "w3 = w2"
      using 1(3) by simp_all
    have w4: "fs w4 = AList.update (absolute w ''package.json'') (stringifyJSON ext (snd nuxtDep)) d2"
      using 1(4) w2 w3 c1 by (auto simp: writeJSON_def absolute_def)
    obtain after where eff: "effect ext (prod_install p) (fs w4) = Some after" and w5: "fs w5 = after"
      using 1(5) by (auto simp: external_Inr)
    have w6: "fs w6 = fs w5" "cwd w6 = cwd w5"
      using 1(6) keeps_fs_validate keeps_cwd_validate by (auto simp: keeps_def)
    have c5: "cwd w5 = cwd w"
      using 1(4,5) w2 w3 c1 by (auto simp: external_Inr writeJSON_def)
    have w7: "fs w7 = (if truthy (NPM_AUTH_TOKEN env) then AList.delete (absolute w ''.npmrc'') after else after)"
      using 1(7) w5 w6 c5
      by (auto simp: cleanup_npmrc_def unlink_def absolute_def split: if_splits)
    have "sfx = fst nuxtDep" "w' = w7" using 1(8) by simp_all
    then show ?case using dep eff w4 w7 wd
      by (intro exI[of _ "snd nuxtDep"] exI[of _ d2] exI[of _ after]) simp
  qed
qed

lemma unlink_position:
  assumes "prefix ms (plan env wd)" "ms = before @ AuthUnlink p # after"
  shows "truthy (NPM_AUTH_TOKEN env) \<and> p = path_resolve wd [''.npmrc''] \<and>
         before = auth_write env wd @
           [DevInstallBegin, DevInstallEnd, ManifestPruned, ProdInstallBegin, ProdInstallEnd]"
proof -
  from assms obtain rest where split: "plan env wd = before @ AuthUnlink p # (after @ rest)"
    by (auto simp: prefix_def)
  then have "AuthUnlink p \<in> set (plan env wd)" by simp
  then have here: "truthy (NPM_AUTH_TOKEN env)" "p = path_resolve wd [''.npmrc'']"
    by (auto simp: plan_def auth_write_def auth_unlink_def split: option.splits if_splits)
  with split have "(auth_write env wd @
           [DevInstallBegin, DevInstallEnd, ManifestPruned, ProdInstallBegin, ProdInstallEnd]) @
           AuthUnlink p # [] = before @ AuthUnlink p # (after @ rest)"
    by (simp add: plan_def auth_unlink_def)
  then have "before = auth_write env wd @
           [DevInstallBegin, DevInstallEnd, ManifestPruned, ProdInstallBegin, ProdInstallEnd] \<and>
           after @ rest = []"
    by (intro split_unique) (auto simp: auth_write_def split: option.splits)
  then show ?thesis using here by simp
qed

lemma function_package_of_make_output:
  assumes "(name, l) \<in> set (function_packages (make_output [(n, l')] c s g))"
  shows "name = n \<and> l = l'"
  using assms by (auto simp: function_packages_make_output split: if_splits)

lemma run_build_Inr:
  assumes "run_build ext env opts disk wd = (Inr out, w')"
  obtains p s sfx w4 w5 launcherFiles packaged clientDistFiles generatedPagesFiles c where
    "paths (p::prepared) = resolve_paths (workPath opts) (entrypoint opts)"
    "install_dependencies ext env p (w4::world) = (Inr sfx, w5)"
    "cwd w4 = path_resolve c [entrypointPath (paths p)]"
    "fs w' = fs w5" "cwd w' = cwd w4"
    "isAbsolute (entrypointPath (paths p))"
    "zip_files (fs w') (merge_all ext (entrypointPath (paths p)) (fs w')
        (extra_patterns (config opts)) launcherFiles) = Some (zipBuffer packaged)"
    "output out = make_output [(lambdaName (s::settings), packaged)] clientDistFiles
        (glob_files ext ''**'' (path_join [entrypointPath (paths p), srcDir s, staticDir s]) (fs w'))
        generatedPagesFiles"
    "\<exists>content read. parseJSON ext content = Some read \<and>
        pkg p = (if usesTypescript read then prepareTypescriptEnvironment ext read else read)"
proof -
  from assms obtain p w1 w2 w3 s w4 sfx w5 where
    stages: "prepare_build ext env opts \<lparr>fs = disk, cwd = wd, events = []\<rparr> = (Inr p, w1)"
      "install_devDependencies ext p w1 = (Inr (), w2)"
      "pre_build ext p w2 = (Inr (), w3)"
      "nuxt_build ext opts p w3 = (Inr s, w4)"
      "install_dependencies ext env p w4 = (Inr sfx, w5)"
      "collect_artifacts ext env opts p s sfx w5 = (Inr out, w')"
    unfolding run_build_def by (elim build_Inr)
  from prepare_build_Inr[OF stages(1)] obtain c where
    prep: "paths p = resolve_paths (workPath opts) (entrypoint opts)"
      "cwd w1 = path_resolve c [entrypointPath (paths p)]"
      "\<exists>content read. parseJSON ext content = Some read \<and>
        pkg p = (if usesTypescript read then prepareTypescriptEnvironment ext read else read)"
    by blast
  have "cwd w2 = cwd w1" "cwd w3 = cwd w2" "cwd w4 = cwd w3" "cwd w5 = cwd w4"
    using stages(2-5) keeps_cwd_install_devDependencies keeps_cwd_pre_build keeps_cwd_nuxt_build
      keeps_cwd_install_dependencies
    by (auto simp: keeps_def)
  then have wd4: "cwd w4 = path_resolve c [entrypointPath (paths p)]" "cwd w5 = cwd w4"
    using prep(2) by simp_all
  from collect_artifacts_Inr[OF stages(6)]
  obtain clientDistFiles generatedPagesFiles launcherFiles packaged where
    col: "isAbsolute (entrypointPath (paths p))" "fs w' = fs w5" "cwd w' = cwd w5"
      "zip_files (fs w5) (merge_all ext (entrypointPath (paths p)) (fs w5)
          (extra_patterns (config opts)) launcherFiles) = Some (zipBuffer packaged)"
      "output out = make_output [(lambdaName s, packaged)] clientDistFiles
          (glob_files ext ''**'' (path_join [entrypointPath (paths p), srcDir s, staticDir s]) (fs w5))
          generatedPagesFiles"
    by blast
  show thesis
    using that[OF prep(1) stages(5) wd4(1) col(2) _ col(1) _ _ prep(3),
        of launcherFiles packaged s clientDistFiles generatedPagesFiles]
      col wd4 by simp
qed

lemma segment_names: "segment ''package.json''" "segment ''.npmrc''"
  by (simp_all add: segment_def)

lemma merge_patterns_no_match:
  "isAbsolute entry \<Longrightarrow> glob_files ext pattern entry (fs w) = [] \<Longrightarrow>
   merge_patterns ext entry (pattern # rest) fl w = merge_patterns ext entry rest fl w"
  by (simp add: io_bind_def glob_def reads_def object_assign_def)

subsection \<open>The errors a run can end in\<close>

named_theorems raises_intros

lemma io_bind_InlE:
  assumes "io_bind m f w = (Inl e, w')"
  obtains "m w = (Inl e, w')" | x w1 where "m w = (Inr x, w1)" "f x w1 = (Inl e, w')"
  using assms by (auto simp: io_bind_Inl)

lemma raises_return [raises_intros]: "raises P (io_return x)"
  by (simp add: raises_def io_return_def)

lemma raises_throw [raises_intros]: "P e \<Longrightarrow> raises P (io_throw e)"
  by (simp add: raises_def io_throw_def)

lemma raises_reads [raises_intros]: "raises P (reads f)"
  by (simp add: raises_def reads_def)

lemma raises_emit [raises_intros]: "raises P (emit ev)"
  by (simp add: raises_def emit_def)

lemma raises_bind [raises_intros]:
  "raises P m \<Longrightarrow> (\<And>x. raises P (f x)) \<Longrightarrow> raises P (io_bind m f)"
  unfolding raises_def by (metis io_bind_Inl)

lemma raises_catch [raises_intros]: "(\<And>e. raises P (h e)) \<Longrightarrow> raises P (io_catch m h)"
  unfolding raises_def io_catch_def
  by (auto split: prod.splits sum.splits)

lemma raises_when [raises_intros]: "raises P m \<Longrightarrow> raises P (io_when b m)"
  by (simp add: io_when_def raises_return)

lemma raises_if [raises_intros]: "raises P a \<Longrightarrow> raises P b \<Longrightarrow> raises P (if c then a else b)"
  by simp

lemma raises_option [raises_intros]:
  "raises P a \<Longrightarrow> (\<And>x. raises P (b x)) \<Longrightarrow> raises P (case v of None \<Rightarrow> a | Some x \<Rightarrow> b x)"
  by (cases v) simp_all

lemma raises_from_option [raises_intros]: "P e \<Longrightarrow> raises P (from_option e x)"
  by (cases x) (simp_all add: from_option_def raises_intros)

lemma raises_external [raises_intros]: "P (StageFailure c) \<Longrightarrow> raises P (external ext c)"
  by (auto simp: raises_def external_def io_bind_def emit_def reads_def io_throw_def
           split: option.splits)

lemma raises_query [raises_intros]: "P (StageFailure c) \<Longrightarrow> raises P (query c f)"
  unfolding query_def by (intro raises_intros)

lemma raises_startStep [raises_intros]: "raises P (startStep n)"
  by (simp add: startStep_def raises_emit)

lemma raises_endStep [raises_intros]: "raises P endStep"
  by (simp add: endStep_def raises_emit)

lemma raises_chdir [raises_intros]: "raises P (chdir d)"
  by (simp add: raises_def chdir_def)

lemma raises_existsSync [raises_intros]: "raises P (existsSync p)"
  by (simp add: existsSync_def raises_reads)

lemma raises_readFile [raises_intros]: "P (SystemError ''ENOENT'') \<Longrightarrow> raises P (readFile p)"
  unfolding readFile_def by (intro raises_intros)

lemma raises_writeFile [raises_intros]: "raises P (writeFile p c)"
  by (simp add: raises_def writeFile_def)

lemma raises_writeJSON [raises_intros]: "raises P (writeJSON ext p c)"
  by (simp add: raises_def writeJSON_def)

lemma raises_copyFile [raises_intros]: "P (SystemError ''ENOENT'') \<Longrightarrow> raises P (copyFile a b)"
  unfolding copyFile_def
  by (intro raises_intros) (simp_all add: raises_def)

lemma raises_mkdirp [raises_intros]: "raises P (mkdirp p)"
  by (simp add: raises_def mkdirp_def)

lemma raises_unlink [raises_intros]: "P (SystemError ''ENOENT'') \<Longrightarrow> raises P (unlink p)"
  by (auto simp: raises_def unlink_def split: if_splits)

lemma raises_glob [raises_intros]:
  "P (SystemError ''basePath/cwd must be an absolute path'') \<Longrightarrow> raises P (glob ext pattern d)"
  unfolding glob_def by (intro raises_intros)

lemma raises_globAndPrefix [raises_intros]:
  "P (SystemError ''basePath/cwd must be an absolute path'') \<Longrightarrow> raises P (globAndPrefix ext pattern d pre)"
  unfolding globAndPrefix_def by (intro raises_intros)

lemma raises_createLambda [raises_intros]:
  "P (SystemError ''createLambda'') \<Longrightarrow> raises P (createLambda h r fl env a b)"
  unfolding createLambda_def by (intro raises_intros)

lemma raises_merge_patterns [raises_intros]:
  "P (SystemError ''basePath/cwd must be an absolute path'') \<Longrightarrow> raises P (merge_patterns ext entry ps fl)"
  by (induction ps arbitrary: fl) (simp_all add: raises_intros)

text \<open>Errors that no collaborator, system call or check of the entrypoint produces.\<close>

definition ordinary :: "(error \<Rightarrow> bool) \<Rightarrow> bool" where
  "ordinary P = ((\<forall>c. P (StageFailure c)) \<and> (\<forall>s. P (SystemError s)) \<and> P InvalidEntrypoint)"

lemma raises_enter_workspace: "ordinary P \<Longrightarrow> raises P (enter_workspace ext opts)"
  unfolding enter_workspace_def Let_def ordinary_def
  by (intro raises_intros; simp)

lemma raises_prepare_environment: "ordinary P \<Longrightarrow> raises P (prepare_environment ext env ps pkg0)"
  unfolding prepare_environment_def write_npmrc_def ordinary_def
  by (intro raises_intros; simp)

lemma raises_install_devDependencies: "ordinary P \<Longrightarrow> raises P (install_devDependencies ext p)"
  unfolding install_devDependencies_def ordinary_def
  by (intro raises_intros; simp)

lemma raises_pre_build: "ordinary P \<Longrightarrow> raises P (pre_build ext p)"
  unfolding pre_build_def ordinary_def
  by (intro raises_intros; simp)

lemma raises_nuxt_build: "ordinary P \<Longrightarrow> raises P (nuxt_build ext opts p)"
  unfolding nuxt_build_def Let_def ordinary_def
  by (intro raises_intros; simp)

lemma raises_collect_artifacts: "ordinary P \<Longrightarrow> raises P (collect_artifacts ext env opts p s sfx)"
  unfolding collect_artifacts_def Let_def ordinary_def
  by (intro raises_intros; simp)

subsection \<open>The version check\<close>

lemma parse_floor: "semver_parse ''2.4.0'' = Some \<lparr>major = 2, minor = 4, patch = 0, prerelease = []\<rparr>"
  by code_simp

lemma parse_ceiling: "semver_parse ''3.0.0'' = Some \<lparr>major = 3, minor = 0, patch = 0, prerelease = []\<rparr>"
  by code_simp

lemma semver_compare_major_less: "major a < major b \<Longrightarrow> semver_compare a b = - 1"
  by (simp add: semver_compare_def compareMain_def compare_nat_def)

lemma semver_compare_major_greater: "major b < major a \<Longrightarrow> semver_compare a b = 1"
  by (simp add: semver_compare_def compareMain_def compare_nat_def)

lemma gt_ceiling_gte_floor:
  assumes "gt v ''3.0.0'' = Some True"
  shows "gte v ''2.4.0'' = Some True"
proof -
  from assms obtain x where x: "semver_parse v = Some x"
    and above: "0 < semver_compare x \<lparr>major = 3, minor = 0, patch = 0, prerelease = []\<rparr>"
    by (auto simp: gt_def parse_ceiling split: option.splits)
  have "\<not> major x < 3"
    using above semver_compare_major_less[of x "\<lparr>major = 3, minor = 0, patch = 0, prerelease = []\<rparr>"]
    by auto
  then have "semver_compare x \<lparr>major = 2, minor = 4, patch = 0, prerelease = []\<rparr> = 1"
    by (intro semver_compare_major_greater) simp
  then show ?thesis by (simp add: gte_def x parse_floor)
qed

lemma validate_nuxt_version_unsupported:
  "validate_nuxt_version ext entry sfx w = (Inl (UnsupportedFrameworkVersion v), w') \<longleftrightarrow>
     resolvePackageVersion ext entry (''@nuxt/core'' @ sfx @ ''/package.json'') (fs w) = Some v \<and>
     gte v ''2.4.0'' = Some False \<and> w' = w"
  by (auto simp: validate_nuxt_version_def io_bind_def reads_def from_option_def io_when_def
                 io_throw_def io_return_def emit_def
           split: option.splits if_splits)

lemma validate_nuxt_version_warns:
  assumes "resolvePackageVersion ext entry (''@nuxt/core'' @ sfx @ ''/package.json'') (fs w) = Some v"
    and "gt v ''3.0.0'' = Some True"
  shows "validate_nuxt_version ext entry sfx w =
           (Inr (), w\<lparr>events := events w @
              [Warn ''WARNING: nuxt >= 3.0.0 is not tested against this builder!'']\<rparr>)"
  using assms gt_ceiling_gte_floor[OF assms(2)]
  by (simp add: validate_nuxt_version_def io_bind_def reads_def from_option_def io_when_def
                io_return_def emit_def)

lemma raises_validate_nuxt_version:
  "raises (\<lambda>e. \<forall>v. e = UnsupportedFrameworkVersion v \<longrightarrow> gte v ''2.4.0'' = Some False)
     (validate_nuxt_version ext entry sfx)"
  unfolding raises_def
  by (auto simp: validate_nuxt_version_unsupported)

lemma raises_install_dependencies:
  "raises (\<lambda>e. \<forall>v. e = UnsupportedFrameworkVersion v \<longrightarrow> gte v ''2.4.0'' = Some False)
     (install_dependencies ext env p)"
  unfolding install_dependencies_def cleanup_npmrc_def
  by (intro raises_intros raises_validate_nuxt_version; simp)

lemma raises_install_dependencies_manifest:
  "raises (\<lambda>e. e \<noteq> ManifestNotFound) (install_dependencies ext env p)"
  unfolding install_dependencies_def cleanup_npmrc_def validate_nuxt_version_def
  by (intro raises_intros; simp)

lemma raises_build_unsupported:
  "raises (\<lambda>e. \<forall>v. e = UnsupportedFrameworkVersion v \<longrightarrow> gte v ''2.4.0'' = Some False)
     (build ext env opts)"
proof -
  have o: "ordinary (\<lambda>e. \<forall>v. e = UnsupportedFrameworkVersion v \<longrightarrow> gte v ''2.4.0'' = Some False)"
    by (simp add: ordinary_def)
  show ?thesis
    unfolding build_def prepare_build_def read_manifest_def
    by (intro raises_intros raises_enter_workspace[OF o] raises_prepare_environment[OF o]
          raises_install_devDependencies[OF o] raises_pre_build[OF o] raises_nuxt_build[OF o]
          raises_install_dependencies raises_collect_artifacts[OF o]; simp)
qed

subsection \<open>The parent directory\<close>

lemma dropWhile_all_twice:
  assumes "\<forall>x\<in>set xs. P x"
  shows "dropWhile P (dropWhile Q xs) = []"
proof -
  have "\<forall>x\<in>set (dropWhile Q xs). P x"
    using assms by (blast dest: set_dropWhileD)
  then show ?thesis
    using dropWhile_eq_Nil_conv[of P "dropWhile Q xs"] by blast
qed

lemma path_dirname_file:
  assumes "d \<noteq> []" "last d \<noteq> CHR ''/''" "f \<noteq> []" "CHR ''/'' \<notin> set f"
  shows "path_dirname (d @ CHR ''/'' # f) = d"
proof -
  obtain c d' where d: "d = c # d'" using assms(1) by (cases d) auto
  obtain a g where f: "rev f = a # g" using assms(3) by (cases "rev f") auto
  have "a \<in> set f" using f by (metis list.set_intros(1) set_rev)
  then have a: "a \<noteq> CHR ''/''" using assms(4) by blast
  have inner: "dropWhile (\<lambda>x. x = CHR ''/'') (rev f @ CHR ''/'' # rev d') = rev f @ CHR ''/'' # rev d'"
    by (simp add: f a)
  have "\<forall>x\<in>set (rev f). x \<noteq> CHR ''/''" using assms(4) by auto
  then have outer: "dropWhile (\<lambda>x. x \<noteq> CHR ''/'') (rev f @ CHR ''/'' # rev d') = CHR ''/'' # rev d'"
    by (subst dropWhile_append2) simp_all
  have root: "\<not> (c = CHR ''/'' \<and> d' = [])" using assms(2) d by auto
  have "path_dirname (c # d' @ CHR ''/'' # f) = c # d'"
    unfolding path_dirname_def list.case Let_def rev_append rev.simps append_assoc append_Cons append_Nil
      inner outer
    using root by simp
  then show ?thesis by (simp add: d)
qed

lemma path_dirname_plain:
  assumes "CHR ''/'' \<notin> set e"
  shows "path_dirname e = ''.''"
proof (cases e)
  case Nil
  then show ?thesis by (simp add: path_dirname_def)
next
  case (Cons c rest)
  have "\<forall>x\<in>set (rev rest). x \<noteq> CHR ''/''" using assms Cons by auto
  then have r: "dropWhile (\<lambda>x. x \<noteq> CHR ''/'') (dropWhile (\<lambda>x. x = CHR ''/'') (rev rest)) = []"
    by (rule dropWhile_all_twice)
  have c: "c \<noteq> CHR ''/''" using assms Cons by auto
  show ?thesis
    unfolding Cons path_dirname_def list.case Let_def r using c by simp
qed

section \<open>The sample run\<close>

text \<open>Each stage is evaluated on the state the stage before it left.\<close>

lemma sample_stage1:
  "prepare_build (sample_externals name v) sample_process sample_options sample_world =
     (Inr sample_prepared, \<lparr>fs = sample_disk1, cwd = ''/w/app'', events = sample_events1\<rparr>)"
  by code_simp

lemma sample_stage2:
  "install_devDependencies (sample_externals name v) sample_prepared
     \<lparr>fs = sample_disk1, cwd = ''/w/app'', events = sample_events1\<rparr> =
     (Inr (), \<lparr>fs = sample_disk1, cwd = ''/w/app'', events = sample_events2\<rparr>)"
  by code_simp

lemma sample_stage3:
  "pre_build (sample_externals name v) sample_prepared
     \<lparr>fs = sample_disk1, cwd = ''/w/app'', events = sample_events2\<rparr> =
     (Inr (), \<lparr>fs = sample_disk1, cwd = ''/w/app'', events = sample_events2\<rparr>)"
  by code_simp

lemma sample_stage4_api:
  "nuxt_build (sample_externals (Some ''api'') v) sample_options sample_prepared
     \<lparr>fs = sample_disk1, cwd = ''/w/app'', events = sample_events2\<rparr> =
     (Inr (sample_settings ''api''), \<lparr>fs = sample_disk4, cwd = ''/w/app'', events = sample_events4\<rparr>)"
  by code_simp

lemma sample_stage4_default:
  "nuxt_build (sample_externals None v) sample_options sample_prepared
     \<lparr>fs = sample_disk1, cwd = ''/w/app'', events = sample_events2\<rparr> =
     (Inr (sample_settings ''index''), \<lparr>fs = sample_disk4, cwd = ''/w/app'', events = sample_events4\<rparr>)"
  by code_simp

lemma sample_stage5:
  "install_dependencies (sample_externals name ''2.15.8'') sample_process sample_prepared
     \<lparr>fs = sample_disk4, cwd = ''/w/app'', events = sample_events4\<rparr> =
     (Inr [], \<lparr>fs = sample_disk5, cwd = ''/w/app'', events = sample_events5\<rparr>)"
  by code_simp

lemma sample_stage6_api:
  "collect_artifacts (sample_externals name v) sample_process sample_options sample_prepared
     (sample_settings ''api'') [] \<lparr>fs = sample_disk5, cwd = ''/w/app'', events = sample_events5\<rparr> =
     (Inr (sample_output ''api''), sample_end)"
  by code_simp

lemma sample_stage6_default:
  "collect_artifacts (sample_externals name v) sample_process sample_options sample_prepared
     (sample_settings ''index'') [] \<lparr>fs = sample_disk5, cwd = ''/w/app'', events = sample_events5\<rparr> =
     (Inr (sample_output ''index''), sample_end)"
  by code_simp

lemma sample_run:
  "run_build (sample_externals (Some ''api'') ''2.15.8'') sample_process sample_options sample_disk ''/'' =
     (Inr (sample_output ''api''), sample_end)"
  by (simp add: run_build_def build_def io_bind_def sample_world_def[symmetric]
        sample_stage1 sample_stage2 sample_stage3 sample_stage4_api sample_stage5 sample_stage6_api)

lemma sample_run_default:
  "run_build (sample_externals None ''2.15.8'') sample_process sample_options sample_disk ''/'' =
     (Inr (sample_output ''index''), sample_end)"
  by (simp add: run_build_def build_def io_bind_def sample_world_def[symmetric]
        sample_stage1 sample_stage2 sample_stage3 sample_stage4_default sample_stage5 sample_stage6_default)

lemma sample_end_milestones: "milestones sample_end = sample_milestones"
  by code_simp

lemma sample_bare_enter:
  "enter_workspace (sample_externals name v) sample_options_bare sample_world =
     (Inr (paths sample_prepared), sample_entered)"
  by code_simp

lemma sample_bare_read:
  "read_manifest (sample_externals name v) sample_entered = (Inl ManifestNotFound, sample_entered)"
  by code_simp

lemma sample_version_low:
  "validate_nuxt_version (sample_externals name ''2.3.0'') ''/w/app'' [] sample_world =
     (Inl (UnsupportedFrameworkVersion ''2.3.0''), sample_world)"
  by code_simp

lemma sample_version_high:
  "validate_nuxt_version (sample_externals name ''3.1.0'') ''/w/app'' [] sample_world =
     (Inr (), sample_world\<lparr>events := events sample_world @
        [Warn ''WARNING: nuxt >= 3.0.0 is not tested against this builder!'']\<rparr>)"
  by code_simp

lemma sample_unparsable_read:
  "read_manifest (sample_externals name v) sample_unparsable = (Inl ManifestNotFound, sample_unparsable)"
  by code_simp

lemma sample_stage5_low:
  "install_dependencies (sample_externals name ''2.3.0'') sample_process sample_prepared
     \<lparr>fs = sample_disk4, cwd = ''/w/app'', events = sample_events4\<rparr> =
     (Inl (UnsupportedFrameworkVersion ''2.3.0''), sample_unsupported)"
  by code_simp

lemma sample_stage5_high:
  "install_dependencies (sample_externals name ''3.1.0'') sample_process sample_prepared
     \<lparr>fs = sample_disk4, cwd = ''/w/app'', events = sample_events4\<rparr> =
     (Inr [], \<lparr>fs = sample_disk5, cwd = ''/w/app'', events = sample_events_untested\<rparr>)"
  by code_simp

lemma sample_stage6_high:
  "collect_artifacts (sample_externals name v) sample_process sample_options sample_prepared
     (sample_settings ''api'') [] \<lparr>fs = sample_disk5, cwd = ''/w/app'', events = sample_events_untested\<rparr> =
     (Inr (sample_output ''api''), sample_end_untested)"
  by code_simp

lemma sample_run_low:
  "run_build (sample_externals (Some ''api'') ''2.3.0'') sample_process sample_options sample_disk ''/'' =
     (Inl (UnsupportedFrameworkVersion ''2.3.0''), sample_unsupported)"
  by (simp add: run_build_def build_def io_bind_def sample_world_def[symmetric]
        sample_stage1 sample_stage2 sample_stage3 sample_stage4_api sample_stage5_low)

lemma sample_run_high:
  "run_build (sample_externals (Some ''api'') ''3.1.0'') sample_process sample_options sample_disk ''/'' =
     (Inr (sample_output ''api''), sample_end_untested)"
  by (simp add: run_build_def build_def io_bind_def sample_world_def[symmetric]
        sample_stage1 sample_stage2 sample_stage3 sample_stage4_api sample_stage5_high sample_stage6_high)

lemma sample_versions:
  "gte ''2.3.0'' ''2.4.0'' = Some False \<and> gt ''3.1.0'' ''3.0.0'' = Some True \<and>
   gte ''2.15.8'' ''2.4.0'' = Some True \<and> gt ''2.15.8'' ''3.0.0'' = Some False"
  by code_simp


section \<open>The claims\<close>

text \<open>
  C7. In every run of the pipeline, whether it ends well or fails on the way, the manifest is
  rewritten after the prune only once the dev-dependency install has returned, and before the
  production install is started: whatever precedes the rewriting in the run's milestones
  holds the end of the dev install and not the start of the production install, nothing of the
  dev install follows it, the manifest is rewritten at most once, and a production install
  that starts has the rewriting before it. A run that goes through has all of them, in the
  order of the plan.
\<close>

theorem prune_between_installs:
  assumes "run_build ext env opts disk wd = (r, w')"
  shows "(\<forall>before after. milestones w' = before @ ManifestPruned # after \<longrightarrow>
            DevInstallEnd \<in> set before \<and> ProdInstallBegin \<notin> set before \<and>
            ManifestPruned \<notin> set before \<and> ManifestPruned \<notin> set after \<and>
            DevInstallBegin \<notin> set after \<and> DevInstallEnd \<notin> set after)
       \<and> (\<forall>before after. milestones w' = before @ ProdInstallBegin # after \<longrightarrow>
            ManifestPruned \<in> set before)
       \<and> (\<forall>out. r = Inr out \<longrightarrow>
            milestones w' = auth_write env (cwd w') @
              [DevInstallBegin, DevInstallEnd, ManifestPruned, ProdInstallBegin, ProdInstallEnd] @
              auth_unlink env (cwd w'))"
proof (intro conjI allI impI)
  note pre = run_build_plan(1)[OF assms]
  fix before after
  assume split: "milestones w' = before @ ManifestPruned # after"
  note b = prune_position(1)[OF pre split] and a = prune_position(2)[OF pre split]
  have "set after \<subseteq> set ([ProdInstallBegin, ProdInstallEnd] @ auth_unlink env (cwd w'))"
    using a by (rule set_mono_prefix)
  then have after: "set after \<subseteq> {ProdInstallBegin, ProdInstallEnd} \<union> set (auth_unlink env (cwd w'))"
    by simp
  show "DevInstallEnd \<in> set before" using b by simp
  show "ProdInstallBegin \<notin> set before" using b by (simp add: auth_write_def)
  show "ManifestPruned \<notin> set before" using b by (simp add: auth_write_def)
  show "ManifestPruned \<notin> set after" using after by (auto simp: auth_unlink_def split: if_splits)
  show "DevInstallBegin \<notin> set after" using after by (auto simp: auth_unlink_def split: if_splits)
  show "DevInstallEnd \<notin> set after" using after by (auto simp: auth_unlink_def split: if_splits)
next
  fix before after
  assume "milestones w' = before @ ProdInstallBegin # after"
  from prod_install_position[OF run_build_plan(1)[OF assms] this]
  show "ManifestPruned \<in> set before" by simp
next
  fix out
  assume "r = Inr out"
  from run_build_plan(2)[OF assms this]
  show "milestones w' = auth_write env (cwd w') @
          [DevInstallBegin, DevInstallEnd, ManifestPruned, ProdInstallBegin, ProdInstallEnd] @
          auth_unlink env (cwd w')"
    by (simp add: plan_def)
qed

theorem prune_between_installs_witness:
  "run_build (sample_externals (Some ''api'') ''2.15.8'') sample_process sample_options sample_disk ''/'' =
     (Inr (sample_output ''api''), sample_end)
   \<and> milestones sample_end =
       [AuthWrite ''/w/app/.npmrc'' ''//registry.npmjs.org/:_authToken=t0k'', DevInstallBegin, DevInstallEnd]
       @ ManifestPruned # [ProdInstallBegin, ProdInstallEnd, AuthUnlink ''/w/app/.npmrc'']
   \<and> DevInstallEnd \<in> set [AuthWrite ''/w/app/.npmrc'' ''//registry.npmjs.org/:_authToken=t0k'',
                           DevInstallBegin, DevInstallEnd]
   \<and> DevInstallBegin \<notin> set [ProdInstallBegin, ProdInstallEnd, AuthUnlink ''/w/app/.npmrc'']"
proof -
  have split: "milestones sample_end =
       [AuthWrite ''/w/app/.npmrc'' ''//registry.npmjs.org/:_authToken=t0k'', DevInstallBegin, DevInstallEnd]
       @ ManifestPruned # [ProdInstallBegin, ProdInstallEnd, AuthUnlink ''/w/app/.npmrc'']"
    by (simp add: sample_end_milestones sample_milestones_def)
  from prune_between_installs[OF sample_run] split
  have "DevInstallEnd \<in> set [AuthWrite ''/w/app/.npmrc'' ''//registry.npmjs.org/:_authToken=t0k'',
                           DevInstallBegin, DevInstallEnd]
      \<and> DevInstallBegin \<notin> set [ProdInstallBegin, ProdInstallEnd, AuthUnlink ''/w/app/.npmrc'']"
    by blast
  then show ?thesis using sample_run split by blast
qed

text \<open>
  C2. Every run that goes through returns routes of one shape: first the cache rule for the
  public-asset prefix (the configured public path without its leading slash, \<^verbatim>\<open>_nuxt/\<close> by
  default), then one cache rule for each file found under the static directory, then the
  filesystem directive, then the catch-all rule. Hence wherever the filesystem directive and
  the catch-all rule stand in the routes, the directive stands first.
\<close>

theorem route_shape:
  assumes "run_build ext env opts disk wd = (Inr out, w')"
  shows "(\<exists>(cfg::nuxtConfig) static_dir.
            routes out =
              [cache_rule (''/'' @ strip_leading_slash (or_default (build_publicPath cfg) ''/_nuxt/'') @ ''.+'')]
              @ map (\<lambda>f. cache_rule (''/'' @ f)) (object_keys (glob_files ext ''**'' static_dir (fs w')))
              @ [filesystem_rule, catch_all_rule])
       \<and> (\<forall>i j. i < length (routes out) \<and> j < length (routes out) \<and>
                 routes out ! i = filesystem_rule \<and> routes out ! j = catch_all_rule \<longrightarrow> i < j)"
proof -
  from assms obtain p w1 w2 w3 s w4 sfx w5 where
    nuxt: "nuxt_build ext opts p w3 = (Inr s, w4)" and
    collect: "collect_artifacts ext env opts p s sfx w5 = (Inr out, w')"
    unfolding run_build_def by (elim build_Inr)
  from nuxt_build_Inr[OF nuxt] obtain cfg :: nuxtConfig where
    public: "publicPath s = strip_leading_slash (or_default (build_publicPath cfg) ''/_nuxt/'')"
    by blast
  from collect_artifacts_Inr[OF collect] have
    same: "fs w' = fs w5" and
    rs: "routes out = make_routes (publicPath s)
           (glob_files ext ''**'' (path_join [entrypointPath (paths p), srcDir s, staticDir s]) (fs w5))"
    by auto
  have shape: "\<exists>(cfg::nuxtConfig) static_dir.
            routes out =
              [cache_rule (''/'' @ strip_leading_slash (or_default (build_publicPath cfg) ''/_nuxt/'') @ ''.+'')]
              @ map (\<lambda>f. cache_rule (''/'' @ f)) (object_keys (glob_files ext ''**'' static_dir (fs w')))
              @ [filesystem_rule, catch_all_rule]"
    apply (rule exI[of _ cfg])
    apply (rule exI[of _ "path_join [entrypointPath (paths p), srcDir s, staticDir s]"])
    apply (simp add: rs make_routes_def public same)
    done
  have order: "\<forall>i j. i < length (routes out) \<and> j < length (routes out) \<and>
                 routes out ! i = filesystem_rule \<and> routes out ! j = catch_all_rule \<longrightarrow> i < j"
    unfolding rs using make_routes_order by blast
  show ?thesis using shape order by blast
qed

theorem route_shape_witness:
  "run_build (sample_externals (Some ''api'') ''2.15.8'') sample_process sample_options sample_disk ''/'' =
     (Inr (sample_output ''api''), sample_end)
   \<and> routes (sample_output ''api'') ! 3 = filesystem_rule
   \<and> routes (sample_output ''api'') ! 4 = catch_all_rule
   \<and> (3::nat) < 4"
proof -
  have at: "routes (sample_output ''api'') ! 3 = filesystem_rule"
    "routes (sample_output ''api'') ! 4 = catch_all_rule"
    "length (routes (sample_output ''api'')) = 5"
    by (simp_all add: sample_output_def sample_routes_def)
  from route_shape[OF sample_run] at have "(3::nat) < 4" by simp
  then show ?thesis using sample_run at by simp
qed

text \<open>
  C1, at the input where the code departs from it: a framework configuration that declares
  \<^verbatim>\<open>lambdaName: "api"\<close>. The only function package of the output is named \<^verbatim>\<open>api\<close>, and the
  catch-all rule, the last of the routes, still sends every remaining request to \<^verbatim>\<open>/index\<close>.
\<close>

theorem catch_all_destination_is_fixed:
  "run_build (sample_externals (Some ''api'') ''2.15.8'') sample_process sample_options sample_disk ''/'' =
     (Inr (sample_output ''api''), sample_end)
   \<and> map fst (function_packages (output (sample_output ''api''))) = [''api'']
   \<and> dest (last (routes (sample_output ''api''))) = Some ''/index''"
proof -
  have "map fst (function_packages (output (sample_output ''api''))) = [''api'']"
    by (simp add: sample_output_def function_packages_def)
  moreover have "dest (last (routes (sample_output ''api''))) = Some ''/index''"
    by (simp add: sample_output_def sample_routes_def catch_all_rule_def)
  ultimately show ?thesis using sample_run by simp
qed

text \<open>
  C9, as the code has it. A run that goes through makes one function package, under the
  lambda name (the name the framework configuration declares, \<^verbatim>\<open>index\<close> by default), and
  spreads it into the output before the client, static and generated files. The output
  therefore holds that package and no other, unless one of those files has the lambda name
  for its path: then the file takes the package's place and the output holds no function
  package at all.
\<close>

theorem function_packages_of_output:
  assumes "run_build ext env opts disk wd = (Inr out, w')"
  shows "\<exists>(cfg::nuxtConfig) packaged clientDistFiles staticFiles generatedPagesFiles.
           output out =
             make_output [(or_default (nuxtConfig.lambdaName cfg) ''index'', packaged)]
               clientDistFiles staticFiles generatedPagesFiles
         \<and> function_packages (output out) =
             (if or_default (nuxtConfig.lambdaName cfg) ''index''
                   \<in> set (object_keys clientDistFiles @ object_keys staticFiles @
                          object_keys generatedPagesFiles)
              then [] else [(or_default (nuxtConfig.lambdaName cfg) ''index'', packaged)])"
proof -
  from assms obtain p w1 w2 w3 s w4 sfx w5 where
    nuxt: "nuxt_build ext opts p w3 = (Inr s, w4)" and
    collect: "collect_artifacts ext env opts p s sfx w5 = (Inr out, w')"
    unfolding run_build_def by (elim build_Inr)
  from nuxt_build_Inr[OF nuxt] obtain cfg :: nuxtConfig where
    name: "lambdaName s = or_default (nuxtConfig.lambdaName cfg) ''index''"
    by blast
  from collect_artifacts_Inr[OF collect] obtain clientDistFiles generatedPagesFiles packaged where
    out: "output out = make_output [(lambdaName s, packaged)] clientDistFiles
           (glob_files ext ''**'' (path_join [entrypointPath (paths p), srcDir s, staticDir s]) (fs w5))
           generatedPagesFiles"
    by blast
  show ?thesis
    apply (rule exI[of _ cfg], rule exI[of _ packaged], rule exI[of _ clientDistFiles])
    apply (rule exI[of _ "glob_files ext ''**'' (path_join [entrypointPath (paths p), srcDir s, staticDir s]) (fs w5)"])
    apply (rule exI[of _ generatedPagesFiles])
    apply (simp only: out name function_packages_make_output)
    done
qed

theorem function_packages_of_output_witness:
  "run_build (sample_externals (Some ''api'') ''2.15.8'') sample_process sample_options sample_disk ''/'' =
     (Inr (sample_output ''api''), sample_end)
   \<and> function_packages (output (sample_output ''api'')) = [(''api'', sample_package)]
   \<and> (\<exists>(cfg::nuxtConfig) packaged clientDistFiles staticFiles generatedPagesFiles.
         output (sample_output ''api'') =
           make_output [(or_default (nuxtConfig.lambdaName cfg) ''index'', packaged)]
             clientDistFiles staticFiles generatedPagesFiles)"
proof -
  from function_packages_of_output[OF sample_run]
  have "\<exists>(cfg::nuxtConfig) packaged clientDistFiles staticFiles generatedPagesFiles.
         output (sample_output ''api'') =
           make_output [(or_default (nuxtConfig.lambdaName cfg) ''index'', packaged)]
             clientDistFiles staticFiles generatedPagesFiles"
    by blast
  moreover have "function_packages (output (sample_output ''api'')) = [(''api'', sample_package)]"
    by (simp add: sample_output_def function_packages_def)
  ultimately show ?thesis using sample_run by simp
qed

text \<open>
  The claim as stated fails for a project with the default configuration whose static
  directory holds a file named \<^verbatim>\<open>index\<close>: the run goes through and its output has no
  function package.
\<close>

theorem function_package_counterexample:
  "run_build (sample_externals None ''2.15.8'') sample_process sample_options sample_disk ''/'' =
     (Inr (sample_output ''index''), sample_end)
   \<and> function_packages (output (sample_output ''index'')) = []"
proof -
  have "function_packages (output (sample_output ''index'')) = []"
    by (simp add: sample_output_def function_packages_def)
  then show ?thesis using sample_run_default by simp
qed

text \<open>
  C8. With a registry token in the environment (set and not empty), the registry-auth file,
  \<^verbatim>\<open>.npmrc\<close> in the entry directory with the token in it, is written before the dev install
  starts; it is unlinked only after the production install has returned, and after a run that
  goes through it has been unlinked and is not on disk. Without a token the builder neither
  writes nor unlinks it.
\<close>

theorem registry_auth_file:
  assumes "run_build ext env opts disk wd = (r, w')"
  shows "(\<forall>token. NPM_AUTH_TOKEN env = Some token \<and> token \<noteq> [] \<longrightarrow>
            (\<forall>before after. milestones w' = before @ DevInstallBegin # after \<longrightarrow>
               before = [AuthWrite (path_resolve (cwd w') [''.npmrc''])
                           (''//registry.npmjs.org/:_authToken='' @ token)])
          \<and> (\<forall>before after p. milestones w' = before @ AuthUnlink p # after \<longrightarrow>
               p = path_resolve (cwd w') [''.npmrc''] \<and> ProdInstallEnd \<in> set before)
          \<and> (\<forall>out. r = Inr out \<longrightarrow>
               AuthUnlink (path_resolve (cwd w') [''.npmrc'']) \<in> set (milestones w') \<and>
               map_of (fs w') (path_resolve (cwd w') [''.npmrc'']) = None))
       \<and> (\<not> truthy (NPM_AUTH_TOKEN env) \<longrightarrow>
            (\<forall>p content. AuthWrite p content \<notin> set (milestones w') \<and>
                         AuthUnlink p \<notin> set (milestones w')))"
proof (intro conjI allI impI)
  note pre = run_build_plan(1)[OF assms]
  fix token before after
  assume token: "NPM_AUTH_TOKEN env = Some token \<and> token \<noteq> []"
    and split: "milestones w' = before @ DevInstallBegin # after"
  from dev_install_position[OF pre split] token
  show "before = [AuthWrite (path_resolve (cwd w') [''.npmrc''])
                    (''//registry.npmjs.org/:_authToken='' @ token)]"
    by (simp add: auth_write_def)
next
  fix token before after p
  assume "milestones w' = before @ AuthUnlink p # after"
  from unlink_position[OF run_build_plan(1)[OF assms] this]
  show "p = path_resolve (cwd w') [''.npmrc'']" and "ProdInstallEnd \<in> set before"
    by simp_all
next
  fix token out
  assume token: "NPM_AUTH_TOKEN env = Some token \<and> token \<noteq> []" and ok: "r = Inr out"
  then have t: "truthy (NPM_AUTH_TOKEN env)" by (simp add: truthy_def)
  from run_build_plan(2)[OF assms ok] t
  show "AuthUnlink (path_resolve (cwd w') [''.npmrc'']) \<in> set (milestones w')"
    by (simp add: plan_def auth_unlink_def)
  from assms ok have run: "run_build ext env opts disk wd = (Inr out, w')" by simp
  from run obtain p sfx w4 w5 where
    inst: "install_dependencies ext env p w4 = (Inr sfx, w5)" and
    same: "fs w' = fs w5" "cwd w' = cwd w4"
    by (elim run_build_Inr) blast
  from install_dependencies_Inr[OF inst] t obtain after where
    "fs w5 = AList.delete (absolute w4 ''.npmrc'') after"
    by auto
  then show "map_of (fs w') (path_resolve (cwd w') [''.npmrc'']) = None"
    using same by (simp add: absolute_def delete_conv')
next
  fix p content
  assume "\<not> truthy (NPM_AUTH_TOKEN env)"
  then have "plan env (cwd w') =
      [DevInstallBegin, DevInstallEnd, ManifestPruned, ProdInstallBegin, ProdInstallEnd]"
    by (auto simp: plan_def auth_write_def auth_unlink_def truthy_def split: option.splits)
  with set_mono_prefix[OF run_build_plan(1)[OF assms]]
  show "AuthWrite p content \<notin> set (milestones w')" and "AuthUnlink p \<notin> set (milestones w')"
    by auto
qed

theorem registry_auth_file_witness:
  "run_build (sample_externals (Some ''api'') ''2.15.8'') sample_process sample_options sample_disk ''/'' =
     (Inr (sample_output ''api''), sample_end)
   \<and> NPM_AUTH_TOKEN sample_process = Some ''t0k'' \<and> ''t0k'' \<noteq> []
   \<and> milestones sample_end =
       [AuthWrite ''/w/app/.npmrc'' ''//registry.npmjs.org/:_authToken=t0k''] @ DevInstallBegin #
       [DevInstallEnd, ManifestPruned, ProdInstallBegin, ProdInstallEnd, AuthUnlink ''/w/app/.npmrc'']
   \<and> path_resolve (cwd sample_end) [''.npmrc''] = ''/w/app/.npmrc''
   \<and> AuthUnlink ''/w/app/.npmrc'' \<in> set (milestones sample_end)
   \<and> map_of (fs sample_end) ''/w/app/.npmrc'' = None"
proof -
  have token: "NPM_AUTH_TOKEN sample_process = Some ''t0k'' \<and> ''t0k'' \<noteq> []"
    by (simp add: sample_process_def)
  have split: "milestones sample_end =
       [AuthWrite ''/w/app/.npmrc'' ''//registry.npmjs.org/:_authToken=t0k''] @ DevInstallBegin #
       [DevInstallEnd, ManifestPruned, ProdInstallBegin, ProdInstallEnd, AuthUnlink ''/w/app/.npmrc'']"
    by (simp add: sample_end_milestones sample_milestones_def)
  have npmrc: "path_resolve (cwd sample_end) [''.npmrc''] = ''/w/app/.npmrc''"
    by code_simp
  from registry_auth_file[OF sample_run] token
  have "AuthUnlink (path_resolve (cwd sample_end) [''.npmrc'']) \<in> set (milestones sample_end) \<and>
        map_of (fs sample_end) (path_resolve (cwd sample_end) [''.npmrc'']) = None"
    by blast
  then show ?thesis using sample_run token split npmrc by simp
qed

text \<open>
  C6. When a run goes through and its output holds the function package, then for each of the
  extra patterns (those of \<^verbatim>\<open>config.includeFiles\<close>, those of \<^verbatim>\<open>config.serverFiles\<close>, and
  \<^verbatim>\<open>package.json\<close>, which is among them whatever the configuration), every file on disk under
  the entry path whose relative path matches the pattern is in the package under that relative
  path, with its content. A pattern that matches nothing is a step of the loop that changes
  nothing and throws nothing.
\<close>

theorem extra_files_are_merged:
  assumes "run_build ext env opts disk wd = (Inr out, w')"
      and "(name, packaged) \<in> set (function_packages (output out))"
  shows "(\<forall>pattern \<in> set (extra_patterns (config opts)). \<forall>p rel.
            p \<in> fst ` set (fs w') \<and>
            relative_to (entrypointPath (resolve_paths (workPath opts) (entrypoint opts))) p = Some rel \<and>
            minimatch ext pattern rel \<longrightarrow>
            map_of (zipBuffer packaged) rel = map_of (fs w') p)
       \<and> (\<forall>ps. includeFiles (config opts) = Some (Many ps) \<longrightarrow>
             set ps \<subseteq> set (extra_patterns (config opts)))
       \<and> (\<forall>s. includeFiles (config opts) = Some (One s) \<and> s \<noteq> [] \<longrightarrow>
             s \<in> set (extra_patterns (config opts)))
       \<and> (\<forall>ps. serverFiles (config opts) = Some ps \<longrightarrow>
             set ps \<subseteq> set (extra_patterns (config opts)))
       \<and> ''package.json'' \<in> set (extra_patterns (config opts))
       \<and> (\<forall>entry pattern rest fl w.
             isAbsolute entry \<and> glob_files ext pattern entry (fs w) = [] \<longrightarrow>
             merge_patterns ext entry (pattern # rest) fl w = merge_patterns ext entry rest fl w)"
proof -
  from assms(1) obtain p s launcherFiles packaged' clientDistFiles generatedPagesFiles where
    paths: "paths (p::prepared) = resolve_paths (workPath opts) (entrypoint opts)" and
    zipped: "zip_files (fs w') (merge_all ext (entrypointPath (paths p)) (fs w')
        (extra_patterns (config opts)) launcherFiles) = Some (zipBuffer packaged')" and
    out: "output out = make_output [(lambdaName (s::settings), packaged')] clientDistFiles
        (glob_files ext ''**'' (path_join [entrypointPath (paths p), srcDir s, staticDir s]) (fs w'))
        generatedPagesFiles"
    by (elim run_build_Inr) blast
  have same: "packaged = packaged'"
    using assms(2) function_package_of_make_output unfolding out by blast
  have merged: "map_of (zipBuffer packaged) rel = map_of (fs w') q"
    if "pattern \<in> set (extra_patterns (config opts))" "q \<in> fst ` set (fs w')"
      "relative_to (entrypointPath (resolve_paths (workPath opts) (entrypoint opts))) q = Some rel"
      "minimatch ext pattern rel" for pattern q rel
  proof -
    from that(2) obtain content where "(q, content) \<in> set (fs w')" by auto
    then have "(rel, FileFsRef q) \<in> set (glob_files ext pattern (entrypointPath (paths p)) (fs w'))"
      using that(3,4) paths by (auto simp: glob_files_iff)
    from merge_all_has[OF that(1) this]
    have "map_of (merge_all ext (entrypointPath (paths p)) (fs w')
            (extra_patterns (config opts)) launcherFiles) rel = Some (FileFsRef q)" .
    with zip_files_map_of[OF zipped, of rel] show ?thesis
      by (simp add: same file_content_def)
  qed
  have patterns:
    "\<forall>ps. includeFiles (config opts) = Some (Many ps) \<longrightarrow> set ps \<subseteq> set (extra_patterns (config opts))"
    "\<forall>s. includeFiles (config opts) = Some (One s) \<and> s \<noteq> [] \<longrightarrow> s \<in> set (extra_patterns (config opts))"
    "\<forall>ps. serverFiles (config opts) = Some ps \<longrightarrow> set ps \<subseteq> set (extra_patterns (config opts))"
    "''package.json'' \<in> set (extra_patterns (config opts))"
    by (auto simp: extra_patterns_def)
  have idle: "\<forall>entry pattern rest fl w.
             isAbsolute entry \<and> glob_files ext pattern entry (fs w) = [] \<longrightarrow>
             merge_patterns ext entry (pattern # rest) fl w = merge_patterns ext entry rest fl w"
    using merge_patterns_no_match by blast
  show ?thesis using merged patterns idle by blast
qed

theorem extra_files_are_merged_witness:
  "run_build (sample_externals (Some ''api'') ''2.15.8'') sample_process sample_options sample_disk ''/'' =
     (Inr (sample_output ''api''), sample_end)
   \<and> (''api'', sample_package) \<in> set (function_packages (output (sample_output ''api'')))
   \<and> ''secrets.json'' \<in> set (extra_patterns (config sample_options))
   \<and> ''/w/app/secrets.json'' \<in> fst ` set (fs sample_end)
   \<and> relative_to (entrypointPath (resolve_paths (workPath sample_options) (entrypoint sample_options)))
        ''/w/app/secrets.json'' = Some ''secrets.json''
   \<and> minimatch (sample_externals (Some ''api'') ''2.15.8'') ''secrets.json'' ''secrets.json''
   \<and> map_of (zipBuffer sample_package) ''secrets.json'' = map_of (fs sample_end) ''/w/app/secrets.json''
   \<and> isAbsolute ''/w/app''
   \<and> glob_files (sample_externals (Some ''api'') ''2.15.8'') ''missing.txt'' ''/w/app'' (fs sample_end) = []"
proof -
  have fn: "(''api'', sample_package) \<in> set (function_packages (output (sample_output ''api'')))"
    by (simp add: sample_output_def function_packages_def)
  have pat: "''secrets.json'' \<in> set (extra_patterns (config sample_options))"
    by (simp add: extra_patterns_def sample_options_def sample_config_def)
  have on_disk: "''/w/app/secrets.json'' \<in> fst ` set (fs sample_end)"
    by code_simp
  have rel: "relative_to (entrypointPath (resolve_paths (workPath sample_options) (entrypoint sample_options)))
        ''/w/app/secrets.json'' = Some ''secrets.json''"
    by code_simp
  have matches: "minimatch (sample_externals (Some ''api'') ''2.15.8'') ''secrets.json'' ''secrets.json''"
    by (simp add: sample_externals_def sample_minimatch_def)
  have none: "isAbsolute ''/w/app''"
    "glob_files (sample_externals (Some ''api'') ''2.15.8'') ''missing.txt'' ''/w/app'' (fs sample_end) = []"
    by code_simp+
  from extra_files_are_merged[OF sample_run fn] pat on_disk rel matches
  have "map_of (zipBuffer sample_package) ''secrets.json'' = map_of (fs sample_end) ''/w/app/secrets.json''"
    by blast
  then show ?thesis using sample_run fn pat on_disk rel matches none by simp
qed

text \<open>
  C10. The manifest in the function package is the pruned one. When a run goes through, the
  globbing layer matches the pattern \<^verbatim>\<open>package.json\<close> against the path \<^verbatim>\<open>package.json\<close>, and the
  production install leaves the manifest on disk alone, then the prune of the manifest read at
  the start gave a production manifest, that manifest is what \<^verbatim>\<open>package.json\<close> in the entry
  directory holds at the end of the run, and it is what the function package holds under
  \<^verbatim>\<open>package.json\<close>.
\<close>

theorem bundled_manifest_is_pruned:
  assumes "run_build ext env opts disk wd = (Inr out, w')"
      and "(name, packaged) \<in> set (function_packages (output out))"
      and "minimatch ext ''package.json'' ''package.json''"
      and "\<forall>d args e before after.
             effect ext (RunNpmInstall d args e) before = Some after \<and> ''--production=true'' \<in> set args \<longrightarrow>
             map_of after (path_resolve (cwd w') [''package.json'']) =
             map_of before (path_resolve (cwd w') [''package.json''])"
  shows "\<exists>content read sfx pruned.
           parseJSON ext content = Some read
         \<and> preparePkgForProd ext
             (if usesTypescript read then prepareTypescriptEnvironment ext read else read) = Some (sfx, pruned)
         \<and> map_of (fs w') (path_resolve (cwd w') [''package.json'']) = Some (stringifyJSON ext pruned)
         \<and> map_of (zipBuffer packaged) ''package.json'' = Some (stringifyJSON ext pruned)"
proof -
  from assms(1) obtain p s sfx w4 w5 launcherFiles packaged' clientDistFiles generatedPagesFiles c where
    inst: "install_dependencies ext env p w4 = (Inr sfx, w5)" and
    wd4: "cwd w4 = path_resolve c [entrypointPath (paths p)]" and
    same: "fs w' = fs w5" "cwd w' = cwd w4" and
    abs: "isAbsolute (entrypointPath (paths p))" and
    zipped: "zip_files (fs w') (merge_all ext (entrypointPath (paths p)) (fs w')
        (extra_patterns (config opts)) launcherFiles) = Some (zipBuffer packaged')" and
    out: "output out = make_output [(lambdaName (s::settings), packaged')] clientDistFiles
        (glob_files ext ''**'' (path_join [entrypointPath (paths p), srcDir s, staticDir s]) (fs w'))
        generatedPagesFiles" and
    read: "\<exists>content read. parseJSON ext content = Some read \<and>
        pkg p = (if usesTypescript read then prepareTypescriptEnvironment ext read else read)"
    by (elim run_build_Inr)
  have pk: "packaged = packaged'"
    using assms(2) function_package_of_make_output unfolding out by blast
  define manifest where "manifest = path_resolve (cwd w') [''package.json'']"
  define npmrc where "npmrc = path_resolve (cwd w') [''.npmrc'']"
  have apart: "manifest \<noteq> npmrc"
    unfolding manifest_def npmrc_def same(2) wd4
    by (simp add: path_resolve_name segment_names)
  from install_dependencies_Inr[OF inst] obtain pruned before after where
    prune: "preparePkgForProd ext (pkg p) = Some (sfx, pruned)" and
    eff: "effect ext (prod_install p) (AList.update manifest (stringifyJSON ext pruned) before) = Some after" and
    fs5: "fs w5 = (if truthy (NPM_AUTH_TOKEN env) then AList.delete npmrc after else after)"
    unfolding manifest_def npmrc_def absolute_def same(2) by blast
  obtain d args e where call: "prod_install p = RunNpmInstall d args e" "''--production=true'' \<in> set args"
    by (simp add: prod_install_def)
  have "map_of after manifest = map_of (AList.update manifest (stringifyJSON ext pruned) before) manifest"
    using assms(4) eff call unfolding manifest_def by metis
  then have "map_of after manifest = Some (stringifyJSON ext pruned)"
    by (simp add: update_conv')
  then have on_disk: "map_of (fs w') manifest = Some (stringifyJSON ext pruned)"
    using apart by (simp add: same(1) fs5 delete_conv')
  then have "(manifest, stringifyJSON ext pruned) \<in> set (fs w')"
    by (rule map_of_SomeD)
  moreover have "relative_to (entrypointPath (paths p)) manifest = Some ''package.json''"
    unfolding manifest_def same(2) wd4 by (rule relative_to_entry[OF abs segment_names(1)])
  ultimately have "(''package.json'', FileFsRef manifest)
      \<in> set (glob_files ext ''package.json'' (entrypointPath (paths p)) (fs w'))"
    using assms(3) by (auto simp: glob_files_iff)
  moreover have "''package.json'' \<in> set (extra_patterns (config opts))"
    by (simp add: extra_patterns_def)
  ultimately have "map_of (merge_all ext (entrypointPath (paths p)) (fs w')
        (extra_patterns (config opts)) launcherFiles) ''package.json'' = Some (FileFsRef manifest)"
    by (intro merge_all_has)
  with zip_files_map_of[OF zipped, of "''package.json''"] on_disk
  have bundled: "map_of (zipBuffer packaged) ''package.json'' = Some (stringifyJSON ext pruned)"
    by (simp add: pk file_content_def)
  from read obtain content r0 where
    r0: "parseJSON ext content = Some r0"
      "pkg p = (if usesTypescript r0 then prepareTypescriptEnvironment ext r0 else r0)"
    by blast
  show ?thesis
    apply (rule exI[of _ content], rule exI[of _ r0], rule exI[of _ sfx], rule exI[of _ pruned])
    using r0 prune on_disk bundled unfolding manifest_def by simp
qed

theorem bundled_manifest_is_pruned_witness:
  "run_build (sample_externals (Some ''api'') ''2.15.8'') sample_process sample_options sample_disk ''/'' =
     (Inr (sample_output ''api''), sample_end)
   \<and> (''api'', sample_package) \<in> set (function_packages (output (sample_output ''api'')))
   \<and> minimatch (sample_externals (Some ''api'') ''2.15.8'') ''package.json'' ''package.json''
   \<and> (\<exists>content read sfx pruned.
         parseJSON (sample_externals (Some ''api'') ''2.15.8'') content = Some read
       \<and> preparePkgForProd (sample_externals (Some ''api'') ''2.15.8'')
            (if usesTypescript read
             then prepareTypescriptEnvironment (sample_externals (Some ''api'') ''2.15.8'') read
             else read) = Some (sfx, pruned)
       \<and> map_of (fs sample_end) (path_resolve (cwd sample_end) [''package.json'']) =
            Some (stringifyJSON (sample_externals (Some ''api'') ''2.15.8'') pruned)
       \<and> map_of (zipBuffer sample_package) ''package.json'' =
            Some (stringifyJSON (sample_externals (Some ''api'') ''2.15.8'') pruned))
   \<and> map_of (zipBuffer sample_package) ''package.json'' = Some ''{pruned}''"
proof -
  have fn: "(''api'', sample_package) \<in> set (function_packages (output (sample_output ''api'')))"
    by (simp add: sample_output_def function_packages_def)
  have matches: "minimatch (sample_externals (Some ''api'') ''2.15.8'') ''package.json'' ''package.json''"
    by (simp add: sample_externals_def sample_minimatch_def)
  have frame: "\<forall>d args e before after.
       effect (sample_externals (Some ''api'') ''2.15.8'') (RunNpmInstall d args e) before = Some after \<and>
       ''--production=true'' \<in> set args \<longrightarrow>
       map_of after (path_resolve (cwd sample_end) [''package.json'']) =
       map_of before (path_resolve (cwd sample_end) [''package.json''])"
    by (simp add: sample_externals_def sample_effect_def)
  have content: "map_of (zipBuffer sample_package) ''package.json'' = Some ''{pruned}''"
    by (simp add: sample_package_def)
  from bundled_manifest_is_pruned[OF sample_run fn matches frame]
  show ?thesis using sample_run fn matches content by simp
qed

end
